theory Spec2Isabelle
  imports Complex_Main "HOL-Library.Sublist"
begin

section \<open>JavaScript numbers\<close>

text \<open>
  A JavaScript number is an IEEE 754 double: a finite value, an infinity or \<open>NaN\<close>. A finite
  double is modelled by the real it denotes (\<open>-0\<close> is not told apart from \<open>0\<close>; no
  operation of the code modelled here depends on the sign of a zero).
\<close>

datatype JsNum = Num real | PosInf | NegInf | NaN

text \<open>Rounding to an integer, to the nearest and, half way between two, to the even one.\<close>

definition roundTiesEven :: "real \<Rightarrow> int" where
  "roundTiesEven x =
     (let f = \<lfloor>x\<rfloor>; d = x - of_int f
      in if d < 1 / 2 then f else if 1 / 2 < d then f + 1 else if even f then f else f + 1)"

text \<open>
  The real nearest to \<open>x\<close> that has a significand of 53 bits (ties to even), with the exponent
  unbounded above and not below \<open>-1022\<close> (so that small values round to multiples of
  \<open>2 ^ (-1074)\<close>); and the double that an exact result \<open>x\<close> becomes: an infinity when the
  rounded value reaches \<open>2 ^ 1024\<close>.
\<close>

definition roundDouble :: "real \<Rightarrow> real" where
  "roundDouble x =
     (if x = 0 then 0
      else (let e = max \<lfloor>log 2 \<bar>x\<bar>\<rfloor> (- 1022); u = 2 powr (of_int e - 52)
            in u * of_int (roundTiesEven (x / u))))"

definition toDouble :: "real \<Rightarrow> JsNum" where
  "toDouble x =
     (let r = roundDouble x
      in if 2 ^ 1024 \<le> \<bar>r\<bar> then (if 0 < x then PosInf else NegInf) else Num r)"

text \<open>The operators \<open>+\<close>, unary \<open>-\<close>, binary \<open>-\<close> and \<open>*\<close> on numbers.\<close>

fun jsAdd :: "JsNum \<Rightarrow> JsNum \<Rightarrow> JsNum" where
  "jsAdd NaN b = NaN"
| "jsAdd a NaN = NaN"
| "jsAdd PosInf NegInf = NaN"
| "jsAdd NegInf PosInf = NaN"
| "jsAdd PosInf b = PosInf"
| "jsAdd a PosInf = PosInf"
| "jsAdd NegInf b = NegInf"
| "jsAdd a NegInf = NegInf"
| "jsAdd (Num x) (Num y) = toDouble (x + y)"

fun jsNeg :: "JsNum \<Rightarrow> JsNum" where
  "jsNeg (Num x) = Num (- x)"
| "jsNeg PosInf = NegInf"
| "jsNeg NegInf = PosInf"
| "jsNeg NaN = NaN"

definition jsSub :: "JsNum \<Rightarrow> JsNum \<Rightarrow> JsNum" where
  "jsSub a b = jsAdd a (jsNeg b)"

fun jsMul :: "JsNum \<Rightarrow> JsNum \<Rightarrow> JsNum" where
  "jsMul NaN b = NaN"
| "jsMul a NaN = NaN"
| "jsMul (Num x) (Num y) = toDouble (x * y)"
| "jsMul (Num x) PosInf = (if x = 0 then NaN else if 0 < x then PosInf else NegInf)"
| "jsMul (Num x) NegInf = (if x = 0 then NaN else if 0 < x then NegInf else PosInf)"
| "jsMul PosInf (Num y) = (if y = 0 then NaN else if 0 < y then PosInf else NegInf)"
| "jsMul NegInf (Num y) = (if y = 0 then NaN else if 0 < y then NegInf else PosInf)"
| "jsMul PosInf PosInf = PosInf"
| "jsMul PosInf NegInf = NegInf"
| "jsMul NegInf PosInf = NegInf"
| "jsMul NegInf NegInf = PosInf"

text \<open>\<open>Math.max\<close> and \<open>Math.min\<close> of two numbers: \<open>NaN\<close> when either is.\<close>

fun mathMax :: "JsNum \<Rightarrow> JsNum \<Rightarrow> JsNum" where
  "mathMax NaN b = NaN"
| "mathMax a NaN = NaN"
| "mathMax PosInf b = PosInf"
| "mathMax a PosInf = PosInf"
| "mathMax NegInf b = b"
| "mathMax a NegInf = a"
| "mathMax (Num x) (Num y) = Num (max x y)"

fun mathMin :: "JsNum \<Rightarrow> JsNum \<Rightarrow> JsNum" where
  "mathMin NaN b = NaN"
| "mathMin a NaN = NaN"
| "mathMin NegInf b = NegInf"
| "mathMin a NegInf = NegInf"
| "mathMin PosInf b = b"
| "mathMin a PosInf = a"
| "mathMin (Num x) (Num y) = Num (min x y)"



section \<open>Intermediate representation (core/ir/types.ts)\<close>

text \<open>
  Strings are lists of 8-bit characters (one \<^typ>\<open>char\<close> per code unit). An optional field
  \<open>f?: T\<close> is a field of type \<open>T option\<close>, with \<open>None\<close> for \<open>undefined\<close>. Record fields carry
  a prefix naming their interface, since several interfaces share the field names \<open>name\<close>,
  \<open>columns\<close>, \<open>type\<close> and so on.
\<close>

text \<open>
  \<open>CT_inherited\<close> is not a member of the source's \<open>ColumnType\<close>: it stands for the value
  that the parser's \<open>mapping[lower]\<close> yields when \<open>lower\<close> names a member of
  \<open>Object.prototype\<close> (\<open>constructor\<close>, \<open>__proto__\<close>), which \<open>??\<close> does not replace by
  \<open>'unknown'\<close>.
\<close>

datatype ColumnType =
    CT_int | CT_bigint | CT_smallint | CT_float | CT_double | CT_decimal
  | CT_varchar | CT_char | CT_text | CT_boolean | CT_date | CT_datetime
  | CT_timestamp | CT_time | CT_uuid | CT_json | CT_blob | CT_enum | CT_unknown
  | CT_inherited string

text \<open>
  The text of a member of \<open>Object.prototype\<close> in a template literal, as V8 renders it:
  \<open>Object.prototype\<close> itself for \<open>__proto__\<close>, a native function otherwise.
\<close>

definition inheritedString :: "string \<Rightarrow> string" where
  "inheritedString k =
     (if k = ''__proto__'' then ''[object Object]''
      else ''function '' @ (if k = ''constructor'' then ''Object'' else k) @ ''() { [native code] }'')"

fun columnTypeString :: "ColumnType \<Rightarrow> string" where
  "columnTypeString CT_int = ''int''"
| "columnTypeString CT_bigint = ''bigint''"
| "columnTypeString CT_smallint = ''smallint''"
| "columnTypeString CT_float = ''float''"
| "columnTypeString CT_double = ''double''"
| "columnTypeString CT_decimal = ''decimal''"
| "columnTypeString CT_varchar = ''varchar''"
| "columnTypeString CT_char = ''char''"
| "columnTypeString CT_text = ''text''"
| "columnTypeString CT_boolean = ''boolean''"
| "columnTypeString CT_date = ''date''"
| "columnTypeString CT_datetime = ''datetime''"
| "columnTypeString CT_timestamp = ''timestamp''"
| "columnTypeString CT_time = ''time''"
| "columnTypeString CT_uuid = ''uuid''"
| "columnTypeString CT_json = ''json''"
| "columnTypeString CT_blob = ''blob''"
| "columnTypeString CT_enum = ''enum''"
| "columnTypeString CT_unknown = ''unknown''"
| "columnTypeString (CT_inherited k) = inheritedString k"

datatype DefaultValue = DefString string | DefNumber JsNum | DefBool bool | DefNull

record ColumnSettings =
  cs_primaryKey :: "bool option"
  cs_unique :: "bool option"
  cs_notNull :: "bool option"
  cs_autoIncrement :: "bool option"
  cs_default :: "DefaultValue option"
  cs_note :: "string option"
  cs_length :: "JsNum option"
  cs_precision :: "JsNum option"
  cs_scale :: "JsNum option"
  cs_enumValues :: "string list option"

record Column =
  col_name :: string
  col_type :: ColumnType
  col_rawType :: "string option"
  col_settings :: ColumnSettings

record Index =
  idx_name :: "string option"
  idx_columns :: "string list"
  idx_unique :: "bool option"
  idx_type :: "string option"

record Table =
  tbl_name :: string
  tbl_schema :: "string option"
  tbl_alias :: "string option"
  tbl_columns :: "Column list"
  tbl_indexes :: "Index list"
  tbl_note :: "string option"

datatype RelationType = OneToOne | OneToMany | ManyToOne | ManyToMany

record ColumnRef =
  ref_table :: string
  ref_column :: string

record Relation =
  rel_name :: "string option"
  rel_from :: ColumnRef
  rel_to :: ColumnRef
  rel_type :: RelationType
  rel_note :: "string option"

record EnumValue =
  ev_name :: string
  ev_note :: "string option"

record DbEnum =
  enum_name :: string
  enum_values :: "EnumValue list"
  enum_note :: "string option"

record IRTableGroup =
  tg_name :: string
  tg_tables :: "string list"

record DatabaseSchema =
  ds_name :: "string option"
  ds_tables :: "Table list"
  ds_relations :: "Relation list"
  ds_enums :: "DbEnum list"
  ds_tableGroups :: "IRTableGroup list"
  ds_note :: "string option"

text \<open>The expression \<open>col.rawType ?? col.type\<close>, used by the builder and by the diff.\<close>

definition displayType :: "Column \<Rightarrow> string" where
  "displayType c = (case col_rawType c of Some r \<Rightarrow> r | None \<Rightarrow> columnTypeString (col_type c))"

section \<open>Graph model (core/graph/types.ts)\<close>

record Point =
  pt_x :: JsNum
  pt_y :: JsNum

record Size =
  sz_width :: JsNum
  sz_height :: JsNum

record Bounds =
  b_x :: JsNum
  b_y :: JsNum
  b_width :: JsNum
  b_height :: JsNum

record ColumnNode =
  cn_id :: string
  cn_name :: string
  cn_type :: string
  cn_isPrimaryKey :: bool
  cn_isForeignKey :: bool
  cn_isUnique :: bool
  cn_isNullable :: bool
  cn_offsetY :: JsNum

record TableNode =
  n_id :: string
  n_name :: string
  n_schema :: "string option"
  n_position :: Point
  n_size :: Size
  n_columns :: "ColumnNode list"
  n_group :: "string option"
  n_color :: "string option"
  n_note :: "string option"
  n_selected :: "bool option"
  n_collapsed :: "bool option"

record EdgeEndpoint =
  ee_nodeId :: string
  ee_columnId :: string
  ee_anchor :: "Point option"

record Edge =
  e_id :: string
  e_from :: EdgeEndpoint
  e_to :: EdgeEndpoint
  e_type :: RelationType
  e_label :: "string option"
  e_points :: "Point list option"
  e_curvature :: "JsNum option"
  e_selected :: "bool option"

record TableGroup =
  g_id :: string
  g_name :: string
  g_color :: "string option"
  g_collapsed :: "bool option"
  g_selected :: "bool option"
  g_nodeIds :: "string list"
  g_bounds :: "Bounds option"

record StickyNote =
  sn_id :: string
  sn_text :: string
  sn_position :: Point
  sn_size :: Size
  sn_color :: "string option"
  sn_zIndex :: "JsNum option"
  sn_attachedToNode :: "string option"
  sn_selected :: "bool option"
  sn_pinned :: "bool option"

record GraphMetadata =
  md_name :: "string option"
  md_note :: "string option"
  md_createdAt :: "string option"
  md_updatedAt :: "string option"

text \<open>
  \<open>groups\<close> is optional in the model although the interface requires it: the layout tests
  build graphs without the field, and \<open>computeGroupBounds\<close> reads it as \<open>graph.groups || []\<close>.
\<close>

record Graph =
  gr_nodes :: "TableNode list"
  gr_edges :: "Edge list"
  gr_groups :: "TableGroup list option"
  gr_notes :: "StickyNote list"
  gr_bounds :: "Bounds option"
  gr_metadata :: "GraphMetadata option"

text \<open>The constant table \<open>NODE_DEFAULTS\<close>.\<close>

definition headerHeight :: JsNum where "headerHeight = Num 32"
definition columnHeight :: JsNum where "columnHeight = Num 24"
definition minWidth :: JsNum where "minWidth = Num 180"
definition nodePadding :: JsNum where "nodePadding = Num 8"
definition charWidth :: JsNum where "charWidth = Num 8"

section \<open>Graph builder (core/graph/builder.ts)\<close>

text \<open>The key \<open>`${table}.${column}`\<close> under which a column is stored in \<open>fkColumns\<close>.\<close>

definition colKey :: "string \<Rightarrow> string \<Rightarrow> string" where
  "colKey t c = t @ ''.'' @ c"

definition fkColumnsOf :: "Relation list \<Rightarrow> string set" where
  "fkColumnsOf rels = set (map (\<lambda>rel. colKey (ref_table (rel_from rel)) (ref_column (rel_from rel))) rels)"

definition orFalse :: "bool option \<Rightarrow> bool" where
  "orFalse b = (case b of Some v \<Rightarrow> v | None \<Rightarrow> False)"

definition buildColumnNode :: "string \<Rightarrow> Column \<Rightarrow> string set \<Rightarrow> JsNum \<Rightarrow> ColumnNode" where
  "buildColumnNode tableName col fkColumns offsetY =
     \<lparr> cn_id = colKey tableName (col_name col),
       cn_name = col_name col,
       cn_type = displayType col,
       cn_isPrimaryKey = orFalse (cs_primaryKey (col_settings col)),
       cn_isForeignKey = (colKey tableName (col_name col) \<in> fkColumns),
       cn_isUnique = orFalse (cs_unique (col_settings col)),
       cn_isNullable = (\<not> orFalse (cs_notNull (col_settings col))),
       cn_offsetY = offsetY \<rparr>"

text \<open>The loop of \<open>buildTableNode\<close> over the table's columns, \<open>offsetY\<close> being the running offset.\<close>

fun buildColumnNodes :: "string \<Rightarrow> string set \<Rightarrow> JsNum \<Rightarrow> Column list \<Rightarrow> ColumnNode list" where
  "buildColumnNodes tableName fkColumns offsetY [] = []"
| "buildColumnNodes tableName fkColumns offsetY (col # rest) =
     buildColumnNode tableName col fkColumns offsetY
       # buildColumnNodes tableName fkColumns (jsAdd offsetY columnHeight) rest"

text \<open>
  The length of a string or an array as a number: an integer below \<open>2 ^ 53\<close>, which is a
  double.
\<close>

definition lengthNumber :: "nat \<Rightarrow> JsNum" where
  "lengthNumber n = Num (real n)"

definition computeNodeSize :: "Table \<Rightarrow> ColumnNode list \<Rightarrow> Size" where
  "computeNodeSize table columns =
     (let maxTextLen =
            fold (\<lambda>col m. let textLen = length (cn_name col) + length (cn_type col) + 3
                           in if textLen > m then textLen else m)
                 columns (length (tbl_name table))
      in \<lparr> sz_width = mathMax minWidth
                          (jsAdd (jsMul (lengthNumber maxTextLen) charWidth)
                                 (jsMul nodePadding (Num 2))),
           sz_height = jsAdd (jsAdd headerHeight
                                    (jsMul (lengthNumber (length columns)) columnHeight))
                             nodePadding \<rparr>)"

definition buildTableNode :: "Table \<Rightarrow> string set \<Rightarrow> TableNode" where
  "buildTableNode table fkColumns =
     (let columns = buildColumnNodes (tbl_name table) fkColumns headerHeight (tbl_columns table)
      in \<lparr> n_id = tbl_name table,
           n_name = tbl_name table,
           n_schema = tbl_schema table,
           n_position = \<lparr> pt_x = Num 0, pt_y = Num 0 \<rparr>,
           n_size = computeNodeSize table columns,
           n_columns = columns,
           n_group = None,
           n_color = None,
           n_note = tbl_note table,
           n_selected = Some False,
           n_collapsed = Some False \<rparr>)"

definition buildEdge :: "Relation \<Rightarrow> Edge" where
  "buildEdge rel =
     \<lparr> e_id = (case rel_name rel of
                 Some n \<Rightarrow> n
               | None \<Rightarrow> colKey (ref_table (rel_from rel)) (ref_column (rel_from rel)) @ ''->''
                          @ colKey (ref_table (rel_to rel)) (ref_column (rel_to rel))),
       e_from = \<lparr> ee_nodeId = ref_table (rel_from rel),
                  ee_columnId = colKey (ref_table (rel_from rel)) (ref_column (rel_from rel)),
                  ee_anchor = None \<rparr>,
       e_to = \<lparr> ee_nodeId = ref_table (rel_to rel),
                ee_columnId = colKey (ref_table (rel_to rel)) (ref_column (rel_to rel)),
                ee_anchor = None \<rparr>,
       e_type = rel_type rel,
       e_label = None,
       e_points = None,
       e_curvature = None,
       e_selected = Some False \<rparr>"

text \<open>
  \<open>const node = nodes.find((n) => n.name === tableName); if (node) node.group = tg.name\<close>:
  the first node of that name is updated in place.
\<close>

fun setGroupOfFirst :: "string \<Rightarrow> string \<Rightarrow> TableNode list \<Rightarrow> TableNode list" where
  "setGroupOfFirst tableName g [] = []"
| "setGroupOfFirst tableName g (n # ns) =
     (if n_name n = tableName then n\<lparr>n_group := Some g\<rparr> # ns
      else n # setGroupOfFirst tableName g ns)"

definition buildGroup :: "IRTableGroup \<Rightarrow> TableGroup" where
  "buildGroup tg =
     \<lparr> g_id = tg_name tg, g_name = tg_name tg, g_color = None, g_collapsed = Some False,
       g_selected = Some False, g_nodeIds = tg_tables tg, g_bounds = None \<rparr>"

definition applyGroup :: "IRTableGroup \<Rightarrow> TableNode list \<Rightarrow> TableNode list" where
  "applyGroup tg ns = fold (\<lambda>tableName acc. setGroupOfFirst tableName (tg_name tg) acc) (tg_tables tg) ns"

definition buildGraph :: "DatabaseSchema \<Rightarrow> Graph" where
  "buildGraph schema =
     (let fkColumns = fkColumnsOf (ds_relations schema);
          nodes0 = map (\<lambda>table. buildTableNode table fkColumns) (ds_tables schema);
          edges0 = map buildEdge (ds_relations schema);
          groups0 = map buildGroup (ds_tableGroups schema);
          nodes1 = fold applyGroup (ds_tableGroups schema) nodes0
      in \<lparr> gr_nodes = nodes1, gr_edges = edges0, gr_groups = Some groups0, gr_notes = [],
           gr_bounds = None, gr_metadata = None \<rparr>)"

subsection \<open>Bounds\<close>

text \<open>
  The accumulators \<open>minX\<close>, \<open>minY\<close>, \<open>maxX\<close>, \<open>maxY\<close> of the two bounds functions, with
  their start values \<open>Infinity\<close> and \<open>-Infinity\<close>.
\<close>

record Extent =
  minX :: JsNum
  minY :: JsNum
  maxX :: JsNum
  maxY :: JsNum

definition emptyExtent :: Extent where
  "emptyExtent = \<lparr> minX = PosInf, minY = PosInf, maxX = NegInf, maxY = NegInf \<rparr>"

definition includeNode :: "TableNode \<Rightarrow> Extent \<Rightarrow> Extent" where
  "includeNode node e =
     \<lparr> minX = mathMin (minX e) (pt_x (n_position node)),
       minY = mathMin (minY e) (pt_y (n_position node)),
       maxX = mathMax (maxX e) (jsAdd (pt_x (n_position node)) (sz_width (n_size node))),
       maxY = mathMax (maxY e) (jsAdd (pt_y (n_position node)) (sz_height (n_size node))) \<rparr>"

definition includeGroup :: "TableGroup \<Rightarrow> Extent \<Rightarrow> Extent" where
  "includeGroup grp e =
     (case g_bounds grp of
        None \<Rightarrow> e
      | Some b \<Rightarrow> \<lparr> minX = mathMin (minX e) (b_x b), minY = mathMin (minY e) (b_y b),
                    maxX = mathMax (maxX e) (jsAdd (b_x b) (b_width b)),
                    maxY = mathMax (maxY e) (jsAdd (b_y b) (b_height b)) \<rparr>)"

definition groupHeaderHeight :: JsNum where "groupHeaderHeight = Num 28"

definition groupBounds :: "TableNode list \<Rightarrow> JsNum \<Rightarrow> TableGroup \<Rightarrow> TableGroup" where
  "groupBounds ns groupPadding grp =
     (let groupNodes = filter (\<lambda>n. n_id n \<in> set (g_nodeIds grp)) ns
      in if length groupNodes = 0 then grp\<lparr>g_bounds := None\<rparr>
         else (let e = fold includeNode groupNodes emptyExtent
               in grp\<lparr>g_bounds := Some
                    \<lparr> b_x = jsSub (minX e) groupPadding,
                      b_y = jsSub (jsSub (minY e) groupPadding) groupHeaderHeight,
                      b_width = jsAdd (jsSub (maxX e) (minX e)) (jsMul groupPadding (Num 2)),
                      b_height = jsAdd (jsAdd (jsSub (maxY e) (minY e))
                                              (jsMul groupPadding (Num 2)))
                                       groupHeaderHeight \<rparr>\<rparr>))"

definition computeGroupBounds :: "Graph \<Rightarrow> JsNum \<Rightarrow> TableGroup list" where
  "computeGroupBounds graph groupPadding =
     map (groupBounds (gr_nodes graph) groupPadding)
         (case gr_groups graph of Some gs \<Rightarrow> gs | None \<Rightarrow> [])"

text \<open>\<open>computeGraphBounds\<close> calls \<open>computeGroupBounds(graph)\<close>, with the default padding 20.\<close>

definition computeGraphBounds :: "Graph \<Rightarrow> JsNum \<Rightarrow> Graph" where
  "computeGraphBounds graph padding =
     (let updatedGroups = computeGroupBounds graph (Num 20)
      in if length (gr_nodes graph) = 0
         then graph\<lparr>gr_groups := Some updatedGroups,
                     gr_bounds := Some \<lparr> b_x = Num 0, b_y = Num 0, b_width = Num 0,
                                         b_height = Num 0 \<rparr>\<rparr>
         else (let e = fold includeGroup updatedGroups
                         (fold includeNode (gr_nodes graph) emptyExtent)
               in graph\<lparr>gr_groups := Some updatedGroups,
                        gr_bounds := Some
                          \<lparr> b_x = jsSub (minX e) padding,
                            b_y = jsSub (minY e) padding,
                            b_width = jsAdd (jsSub (maxX e) (minX e)) (jsMul padding (Num 2)),
                            b_height = jsAdd (jsSub (maxY e) (minY e))
                                             (jsMul padding (Num 2)) \<rparr>\<rparr>))"

section \<open>Grid layout (core/graph/layout.ts)\<close>












section \<open>Schema validator (core/ir/validator.ts)\<close>

datatype Severity = SevError | SevWarning

record ErrorLocation =
  loc_table :: "string option"
  loc_column :: "string option"
  loc_relation :: "string option"

record ValidationError =
  ve_type :: Severity
  ve_message :: string
  ve_location :: "ErrorLocation option"

record ValidationResult =
  vr_valid :: bool
  vr_errors :: "ValidationError list"

text \<open>The double quote that the messages put around names.\<close>

definition dq :: string where
  "dq = [CHR 0x22]"

definition quoted :: "string \<Rightarrow> string" where
  "quoted s = dq @ s @ dq"

text \<open>
  The state of the validator: the \<open>errors\<close> array (\<open>push\<close> appends), the set \<open>tableNames\<close>
  and the map \<open>tableColumnMap\<close>.
\<close>

record ValidatorState =
  vs_errors :: "ValidationError list"
  vs_tableNames :: "string set"
  vs_tableColumnMap :: "string \<rightharpoonup> string set"

text \<open>The state of the loop over one table's columns: \<open>errors\<close>, \<open>colNames\<close>, \<open>hasPrimaryKey\<close>.\<close>

record ColumnLoopState =
  cl_errors :: "ValidationError list"
  cl_colNames :: "string set"
  cl_hasPrimaryKey :: bool

definition checkColumn :: "string set \<Rightarrow> Table \<Rightarrow> Column \<Rightarrow> ColumnLoopState \<Rightarrow> ColumnLoopState" where
  "checkColumn enumNames table col st =
     (let errors1 =
            (if col_name col \<in> cl_colNames st
             then cl_errors st @
                  [\<lparr> ve_type = SevError,
                     ve_message = ''Duplicate column '' @ quoted (col_name col) @ '' in table ''
                                  @ quoted (tbl_name table),
                     ve_location = Some \<lparr> loc_table = Some (tbl_name table),
                                          loc_column = Some (col_name col),
                                          loc_relation = None \<rparr> \<rparr>]
             else cl_errors st);
          colNames1 = insert (col_name col) (cl_colNames st);
          hasPrimaryKey1 = (if cs_primaryKey (col_settings col) = Some True then True
                            else cl_hasPrimaryKey st);
          errors2 =
            (if col_type col = CT_enum \<and> cs_enumValues (col_settings col) = None
             then (case col_rawType col of
                     None \<Rightarrow> errors1
                   | Some enumRef \<Rightarrow>
                       if enumRef \<noteq> [] \<and> enumRef \<notin> enumNames
                       then errors1 @
                            [\<lparr> ve_type = SevWarning,
                               ve_message = ''Column '' @ quoted (col_name col)
                                            @ '' references unknown enum '' @ quoted enumRef,
                               ve_location = Some \<lparr> loc_table = Some (tbl_name table),
                                                    loc_column = Some (col_name col),
                                                    loc_relation = None \<rparr> \<rparr>]
                       else errors1)
             else errors1)
      in \<lparr> cl_errors = errors2, cl_colNames = colNames1, cl_hasPrimaryKey = hasPrimaryKey1 \<rparr>)"

definition checkTable :: "string set \<Rightarrow> Table \<Rightarrow> ValidatorState \<Rightarrow> ValidatorState" where
  "checkTable enumNames table st =
     (let errors1 =
            (if tbl_name table \<in> vs_tableNames st
             then vs_errors st @
                  [\<lparr> ve_type = SevError,
                     ve_message = ''Duplicate table name: '' @ quoted (tbl_name table),
                     ve_location = Some \<lparr> loc_table = Some (tbl_name table), loc_column = None,
                                          loc_relation = None \<rparr> \<rparr>]
             else vs_errors st);
          tableNames1 = insert (tbl_name table) (vs_tableNames st);
          cl = fold (checkColumn enumNames table) (tbl_columns table)
                 \<lparr> cl_errors = errors1, cl_colNames = {}, cl_hasPrimaryKey = False \<rparr>;
          tableColumnMap1 = (vs_tableColumnMap st)(tbl_name table \<mapsto> cl_colNames cl);
          errors2 =
            (if \<not> cl_hasPrimaryKey cl
             then cl_errors cl @
                  [\<lparr> ve_type = SevWarning,
                     ve_message = ''Table '' @ quoted (tbl_name table) @ '' has no primary key'',
                     ve_location = Some \<lparr> loc_table = Some (tbl_name table), loc_column = None,
                                          loc_relation = None \<rparr> \<rparr>]
             else cl_errors cl)
      in \<lparr> vs_errors = errors2, vs_tableNames = tableNames1, vs_tableColumnMap = tableColumnMap1 \<rparr>)"

text \<open>
  One end of a relation: the table must exist, and then the column must be one of the
  table's. The location is \<open>rel.name ?? `${table}.${column}`\<close>.
\<close>

definition checkEndpoint ::
  "string set \<Rightarrow> (string \<rightharpoonup> string set) \<Rightarrow> Relation \<Rightarrow> ColumnRef \<Rightarrow> ValidationError list \<Rightarrow> ValidationError list" where
  "checkEndpoint tableNames tableColumnMap rel ep errors =
     (let loc = Some \<lparr> loc_table = None, loc_column = None,
                       loc_relation = Some (case rel_name rel of
                                              Some n \<Rightarrow> n
                                            | None \<Rightarrow> colKey (ref_table ep) (ref_column ep)) \<rparr>
      in if ref_table ep \<notin> tableNames
         then errors @
              [\<lparr> ve_type = SevError,
                 ve_message = ''Relation references non-existent table '' @ quoted (ref_table ep),
                 ve_location = loc \<rparr>]
         else (case tableColumnMap (ref_table ep) of
                 None \<Rightarrow> errors
               | Some cols \<Rightarrow>
                   if ref_column ep \<notin> cols
                   then errors @
                        [\<lparr> ve_type = SevError,
                           ve_message = ''Relation references non-existent column ''
                                        @ quoted (colKey (ref_table ep) (ref_column ep)),
                           ve_location = loc \<rparr>]
                   else errors))"

definition checkRelation ::
  "string set \<Rightarrow> (string \<rightharpoonup> string set) \<Rightarrow> Relation \<Rightarrow> ValidationError list \<Rightarrow> ValidationError list" where
  "checkRelation tableNames tableColumnMap rel errors =
     checkEndpoint tableNames tableColumnMap rel (rel_to rel)
       (checkEndpoint tableNames tableColumnMap rel (rel_from rel) errors)"

definition checkGroup :: "string set \<Rightarrow> IRTableGroup \<Rightarrow> ValidationError list \<Rightarrow> ValidationError list" where
  "checkGroup tableNames grp errors =
     fold (\<lambda>tName errs.
             if tName \<notin> tableNames
             then errs @
                  [\<lparr> ve_type = SevWarning,
                     ve_message = ''TableGroup '' @ quoted (tg_name grp)
                                  @ '' references unknown table '' @ quoted tName,
                     ve_location = None \<rparr>]
             else errs)
          (tg_tables grp) errors"

definition validateSchema :: "DatabaseSchema \<Rightarrow> ValidationResult" where
  "validateSchema schema =
     (let enumNames = set (map enum_name (ds_enums schema));
          st = fold (checkTable enumNames) (ds_tables schema)
                 \<lparr> vs_errors = [], vs_tableNames = {}, vs_tableColumnMap = Map.empty \<rparr>;
          errors1 = fold (checkRelation (vs_tableNames st) (vs_tableColumnMap st))
                      (ds_relations schema) (vs_errors st);
          errors2 = fold (checkGroup (vs_tableNames st)) (ds_tableGroups schema) errors1
      in \<lparr> vr_valid = (length (filter (\<lambda>e. ve_type e = SevError) errors2) = 0),
           vr_errors = errors2 \<rparr>)"

text \<open>\<open>e.message.includes(...)\<close>, as the validator's tests look messages up.\<close>

definition mentions :: "string \<Rightarrow> ValidationError \<Rightarrow> bool" where
  "mentions s e \<longleftrightarrow> sublist s (ve_message e)"

text \<open>The entry that \<open>validateSchema\<close> pushes for an end of a relation whose table is missing.\<close>

definition missingTableError :: "Relation \<Rightarrow> ColumnRef \<Rightarrow> ValidationError" where
  "missingTableError rel ep =
     \<lparr> ve_type = SevError,
       ve_message = ''Relation references non-existent table '' @ quoted (ref_table ep),
       ve_location = Some \<lparr> loc_table = None, loc_column = None,
                             loc_relation = Some (case rel_name rel of
                                                    Some n \<Rightarrow> n
                                                  | None \<Rightarrow> colKey (ref_table ep) (ref_column ep)) \<rparr> \<rparr>"

section \<open>Sample inputs\<close>




definition noSettings :: ColumnSettings where
  "noSettings =
     \<lparr> cs_primaryKey = None, cs_unique = None, cs_notNull = None, cs_autoIncrement = None,
       cs_default = None, cs_note = None, cs_length = None, cs_precision = None,
       cs_scale = None, cs_enumValues = None \<rparr>"

definition sampleColumn :: "string \<Rightarrow> ColumnType \<Rightarrow> string \<Rightarrow> ColumnSettings \<Rightarrow> Column" where
  "sampleColumn nm ty raw st = \<lparr> col_name = nm, col_type = ty, col_rawType = Some raw, col_settings = st \<rparr>"

definition sampleTable :: "string \<Rightarrow> Column list \<Rightarrow> Table" where
  "sampleTable nm cols =
     \<lparr> tbl_name = nm, tbl_schema = None, tbl_alias = None, tbl_columns = cols, tbl_indexes = [],
       tbl_note = None \<rparr>"

definition sampleRelation :: "string \<Rightarrow> string \<Rightarrow> RelationType \<Rightarrow> string \<Rightarrow> string \<Rightarrow> Relation" where
  "sampleRelation ft fc ty tt tc =
     \<lparr> rel_name = None, rel_from = \<lparr> ref_table = ft, ref_column = fc \<rparr>,
       rel_to = \<lparr> ref_table = tt, ref_column = tc \<rparr>, rel_type = ty, rel_note = None \<rparr>"

definition postsTable :: Table where
  "postsTable = sampleTable ''posts''
     [sampleColumn ''id'' CT_int ''int'' (noSettings\<lparr>cs_primaryKey := Some True\<rparr>),
      sampleColumn ''author_id'' CT_int ''int'' noSettings]"

text \<open>One table and one relation between two tables that do not exist.\<close>

definition danglingRelation :: Relation where
  "danglingRelation = sampleRelation ''ghosts'' ''a'' ManyToOne ''phantoms'' ''b''"

definition danglingSchema :: DatabaseSchema where
  "danglingSchema =
     \<lparr> ds_name = None, ds_tables = [postsTable],
       ds_relations = [danglingRelation],
       ds_enums = [], ds_tableGroups = [], ds_note = None \<rparr>"

text \<open>A table whose name contains a dot, and a relation from a column whose name contains one.\<close>

definition dottedSchema :: DatabaseSchema where
  "dottedSchema =
     \<lparr> ds_name = None,
       ds_tables = [sampleTable ''a.b'' [sampleColumn ''c'' CT_int ''int'' noSettings]],
       ds_relations = [sampleRelation ''a'' ''b.c'' ManyToOne ''x'' ''y''],
       ds_enums = [], ds_tableGroups = [], ds_note = None \<rparr>"

text \<open>The schema of \<open>Ref: posts.author_id > users.id\<close> with its two tables.\<close>

definition usersTable :: Table where
  "usersTable = sampleTable ''users''
     [sampleColumn ''id'' CT_int ''int'' (noSettings\<lparr>cs_primaryKey := Some True\<rparr>)]"

definition blogSchema :: DatabaseSchema where
  "blogSchema =
     \<lparr> ds_name = None, ds_tables = [postsTable, usersTable],
       ds_relations = [sampleRelation ''posts'' ''author_id'' ManyToOne ''users'' ''id''],
       ds_enums = [], ds_tableGroups = [], ds_note = None \<rparr>"

text \<open>One table \<open>a\<close> with the column \<open>id int [pk]\<close>, and no relation.\<close>

definition swallowSchema :: DatabaseSchema where
  "swallowSchema =
     \<lparr> ds_name = None,
       ds_tables = [sampleTable ''a''
                      [sampleColumn ''id'' CT_int ''int'' (noSettings\<lparr>cs_primaryKey := Some True\<rparr>)]],
       ds_relations = [], ds_enums = [], ds_tableGroups = [], ds_note = None \<rparr>"

section \<open>Lexer (class \<open>Lexer\<close> of core/parser, imported as \<open>./lexer\<close>)\<close>

text \<open>
  \<open>INHERITED\<close> is not a member of the source's \<open>TokenType\<close>: it stands for the value that
  \<open>KEYWORDS[value]\<close> yields when \<open>value\<close> names a member of \<open>Object.prototype\<close>
  (\<open>KEYWORDS\<close> is a plain object literal, so \<open>KEYWORDS['constructor']\<close> is a function, which
  \<open>??\<close> does not replace by \<open>'IDENTIFIER'\<close>). It equals none of the token types that
  the parser compares with.
\<close>

datatype TokenType =
    TABLE | ENUM | REF | TABLEGROUP | AS | NOTE | INDEXES
  | LBRACE | RBRACE | LBRACKET | RBRACKET | LPAREN | RPAREN | COMMA | COLON | DOT
  | REL_ONE_TO_ONE | REL_ONE_TO_MANY | REL_MANY_TO_ONE | REL_MANY_TO_MANY
  | IDENTIFIER | STRING | NUMBER
  | NEWLINE | EOF | UNKNOWN
  | INHERITED string

record Token =
  tok_type :: TokenType
  tok_value :: string
  tok_line :: nat
  tok_column :: nat

definition objectPrototypeKeys :: "string list" where
  "objectPrototypeKeys =
     [''constructor'', ''__defineGetter__'', ''__defineSetter__'', ''hasOwnProperty'',
      ''__lookupGetter__'', ''__lookupSetter__'', ''isPrototypeOf'', ''propertyIsEnumerable'',
      ''toString'', ''valueOf'', ''__proto__'', ''toLocaleString'']"

definition KEYWORDS :: "(string \<times> TokenType) list" where
  "KEYWORDS =
     [(''table'', TABLE), (''Table'', TABLE), (''TABLE'', TABLE),
      (''enum'', ENUM), (''Enum'', ENUM), (''ENUM'', ENUM),
      (''ref'', REF), (''Ref'', REF), (''REF'', REF),
      (''tablegroup'', TABLEGROUP), (''TableGroup'', TABLEGROUP),
      (''as'', AS),
      (''note'', NOTE), (''Note'', NOTE),
      (''indexes'', INDEXES), (''Indexes'', INDEXES)]"

text \<open>\<open>KEYWORDS[value] ?? 'IDENTIFIER'\<close>.\<close>

definition keywordType :: "string \<Rightarrow> TokenType" where
  "keywordType v =
     (case map_of KEYWORDS v of
        Some t \<Rightarrow> t
      | None \<Rightarrow> if v \<in> set objectPrototypeKeys then INHERITED v else IDENTIFIER)"

record Lexer =
  lx_pos :: nat
  lx_line :: nat
  lx_column :: nat
  lx_tokens :: "Token list"

definition newline :: char where "newline = CHR 0x0A"
definition backslash :: char where "backslash = CHR 0x5C"

text \<open>\<open>this.input[this.pos]\<close>; \<open>None\<close> is \<open>undefined\<close>, read beyond the end of the input.\<close>

definition current :: "string \<Rightarrow> Lexer \<Rightarrow> char option" where
  "current input lx = (if lx_pos lx < length input then Some (input ! lx_pos lx) else None)"

text \<open>\<open>this.input[this.pos + 1] ?? ''\<close>; \<open>None\<close> is the empty string.\<close>

definition peek :: "string \<Rightarrow> Lexer \<Rightarrow> char option" where
  "peek input lx = (if lx_pos lx + 1 < length input then Some (input ! (lx_pos lx + 1)) else None)"

definition advance :: "Lexer \<Rightarrow> Lexer" where
  "advance lx = lx\<lparr>lx_pos := lx_pos lx + 1, lx_column := lx_column lx + 1\<rparr>"

definition makeToken :: "TokenType \<Rightarrow> string \<Rightarrow> Lexer \<Rightarrow> Token" where
  "makeToken ty v lx = \<lparr> tok_type = ty, tok_value = v, tok_line = lx_line lx, tok_column = lx_column lx \<rparr>"

definition push :: "Token \<Rightarrow> Lexer \<Rightarrow> Lexer" where
  "push t lx = lx\<lparr>lx_tokens := lx_tokens lx @ [t]\<rparr>"

definition isDigit :: "char \<Rightarrow> bool" where
  "isDigit ch \<longleftrightarrow> ch \<in> set ''0123456789''"

definition isAlpha :: "char \<Rightarrow> bool" where
  "isAlpha ch \<longleftrightarrow> ch \<in> set ''abcdefghijklmnopqrstuvwxyzABCDEFGHIJKLMNOPQRSTUVWXYZ''"

definition isAlphaNumeric :: "char \<Rightarrow> bool" where
  "isAlphaNumeric ch \<longleftrightarrow>
     ch \<in> set ''abcdefghijklmnopqrstuvwxyzABCDEFGHIJKLMNOPQRSTUVWXYZ0123456789_''"

text \<open>The loop of a line comment: up to, not including, the next newline.\<close>

function skipLineComment :: "string \<Rightarrow> Lexer \<Rightarrow> Lexer" where
  "skipLineComment input lx =
     (if lx_pos lx < length input \<and> input ! lx_pos lx \<noteq> newline
      then skipLineComment input (advance lx)
      else lx)"
  by pat_completeness auto
termination
  by (relation "measure (\<lambda>(input, lx). length input - lx_pos lx)") (auto simp: advance_def)

declare skipLineComment.simps [simp del]

text \<open>The loop of a block comment, entered after the two characters \<open>/*\<close>.\<close>

function skipBlockComment :: "string \<Rightarrow> Lexer \<Rightarrow> Lexer" where
  "skipBlockComment input lx =
     (if lx_pos lx < length input
      then if input ! lx_pos lx = CHR ''*'' \<and> peek input lx = Some CHR ''/''
           then advance (advance lx)
           else skipBlockComment input
                  (advance (if input ! lx_pos lx = newline
                            then lx\<lparr>lx_line := lx_line lx + 1, lx_column := 0\<rparr>
                            else lx))
      else lx)"
  by pat_completeness auto
termination
  by (relation "measure (\<lambda>(input, lx). length input - lx_pos lx)") (auto simp: advance_def)
lemma skipLineComment_pos: "lx_pos lx \<le> lx_pos (skipLineComment input lx)"
proof (induction input lx rule: skipLineComment.induct)
  case (1 input lx)
  show ?case
  proof (cases "lx_pos lx < length input \<and> input ! lx_pos lx \<noteq> newline")
    case True
    with 1 have "lx_pos (advance lx) \<le> lx_pos (skipLineComment input (advance lx))" by simp
    with True show ?thesis by (subst skipLineComment.simps) (simp add: advance_def)
  next
    case False
    then show ?thesis by (subst skipLineComment.simps) auto
  qed
qed

declare skipBlockComment.simps [simp del]

lemma skipLineComment_progress:
  assumes "lx_pos lx < length input" "input ! lx_pos lx \<noteq> newline"
  shows "lx_pos lx < lx_pos (skipLineComment input lx)"
proof -
  have "skipLineComment input lx = skipLineComment input (advance lx)"
    using assms by (subst skipLineComment.simps) simp
  moreover have "lx_pos (advance lx) \<le> lx_pos (skipLineComment input (advance lx))"
    by (rule skipLineComment_pos)
  ultimately show ?thesis by (simp add: advance_def)
qed

lemma skipBlockComment_pos: "lx_pos lx \<le> lx_pos (skipBlockComment input lx)"
proof (induction input lx rule: skipBlockComment.induct)
  case (1 input lx)
  let ?lx' = "advance (if input ! lx_pos lx = newline
                       then lx\<lparr>lx_line := lx_line lx + 1, lx_column := 0\<rparr> else lx)"
  show ?case
  proof (cases "lx_pos lx < length input")
    case False
    then show ?thesis by (subst skipBlockComment.simps) simp
  next
    case True
    show ?thesis
    proof (cases "input ! lx_pos lx = CHR ''*'' \<and> peek input lx = Some CHR ''/''")
      case close: True
      show ?thesis
        by (subst skipBlockComment.simps)
           (simp only: True close if_True, simp add: advance_def)
    next
      case False
      with True 1 have "lx_pos ?lx' \<le> lx_pos (skipBlockComment input ?lx')" by simp
      moreover have "skipBlockComment input lx = skipBlockComment input ?lx'"
        by (subst skipBlockComment.simps) (simp only: True False if_True if_False)
      ultimately show ?thesis by (simp add: advance_def split: if_splits)
    qed
  qed
qed

function skipWhitespaceAndComments :: "string \<Rightarrow> Lexer \<Rightarrow> Lexer" where
  "skipWhitespaceAndComments input lx =
     (if lx_pos lx < length input
      then (let ch = input ! lx_pos lx
            in if ch = CHR '' '' \<or> ch = CHR 0x09 \<or> ch = CHR 0x0D
               then skipWhitespaceAndComments input (advance lx)
               else if ch = CHR ''/'' \<and> peek input lx = Some CHR ''/''
               then skipWhitespaceAndComments input (skipLineComment input lx)
               else if ch = CHR ''/'' \<and> peek input lx = Some CHR ''*''
               then skipWhitespaceAndComments input (skipBlockComment input (advance (advance lx)))
               else lx)
      else lx)"
  by pat_completeness auto
termination
proof (relation "measure (\<lambda>(input, lx). length input - lx_pos lx)", goal_cases)
  case 1
  then show ?case by simp
next
  case (2 input lx ch)
  then show ?case by (auto simp: advance_def)
next
  case (3 input lx ch)
  then have "lx_pos lx < lx_pos (skipLineComment input lx)"
    by (intro skipLineComment_progress) (auto simp: newline_def)
  with 3 show ?case by auto
next
  case (4 input lx ch)
  have "lx_pos (advance (advance lx)) \<le> lx_pos (skipBlockComment input (advance (advance lx)))"
    by (rule skipBlockComment_pos)
  with 4 show ?case by (auto simp: advance_def)
qed

declare skipWhitespaceAndComments.simps [simp del]

lemma skipWhitespaceAndComments_pos: "lx_pos lx \<le> lx_pos (skipWhitespaceAndComments input lx)"
proof (induction input lx rule: skipWhitespaceAndComments.induct)
  case (1 input lx)
  show ?case
  proof (cases "lx_pos lx < length input")
    case False
    then show ?thesis by (subst skipWhitespaceAndComments.simps) simp
  next
    case True
    let ?ch = "input ! lx_pos lx"
    consider (ws) "?ch = CHR '' '' \<or> ?ch = CHR 0x09 \<or> ?ch = CHR 0x0D"
      | (line) "\<not> (?ch = CHR '' '' \<or> ?ch = CHR 0x09 \<or> ?ch = CHR 0x0D)"
          "?ch = CHR ''/'' \<and> peek input lx = Some CHR ''/''"
      | (block) "\<not> (?ch = CHR '' '' \<or> ?ch = CHR 0x09 \<or> ?ch = CHR 0x0D)"
          "\<not> (?ch = CHR ''/'' \<and> peek input lx = Some CHR ''/'')"
          "?ch = CHR ''/'' \<and> peek input lx = Some CHR ''*''"
      | (other) "\<not> (?ch = CHR '' '' \<or> ?ch = CHR 0x09 \<or> ?ch = CHR 0x0D)"
          "\<not> (?ch = CHR ''/'' \<and> peek input lx = Some CHR ''/'')"
          "\<not> (?ch = CHR ''/'' \<and> peek input lx = Some CHR ''*'')"
      by blast
    then show ?thesis
    proof cases
      case ws
      with True 1(1) [OF True refl]
      have "lx_pos (advance lx) \<le> lx_pos (skipWhitespaceAndComments input (advance lx))" by simp
      moreover have "skipWhitespaceAndComments input lx = skipWhitespaceAndComments input (advance lx)"
        using True ws by (subst skipWhitespaceAndComments.simps) (simp add: Let_def)
      ultimately show ?thesis by (simp add: advance_def)
    next
      case line
      with True 1(2) [OF True refl]
      have "lx_pos (skipLineComment input lx)
              \<le> lx_pos (skipWhitespaceAndComments input (skipLineComment input lx))" by simp
      moreover have "skipWhitespaceAndComments input lx
                       = skipWhitespaceAndComments input (skipLineComment input lx)"
        using True line by (subst skipWhitespaceAndComments.simps) (simp add: Let_def)
      ultimately show ?thesis using skipLineComment_pos [of lx input] by simp
    next
      case block
      let ?b = "skipBlockComment input (advance (advance lx))"
      from block True 1(3) [OF True refl]
      have "lx_pos ?b \<le> lx_pos (skipWhitespaceAndComments input ?b)" by simp
      moreover have "skipWhitespaceAndComments input lx = skipWhitespaceAndComments input ?b"
        using True block by (subst skipWhitespaceAndComments.simps) (simp add: Let_def)
      ultimately show ?thesis
        using skipBlockComment_pos [of "advance (advance lx)" input] by (simp add: advance_def)
    next
      case other
      have "skipWhitespaceAndComments input lx = lx"
        by (subst skipWhitespaceAndComments.simps) (simp only: Let_def True other if_True if_False)
      then show ?thesis by simp
    qed
  qed
qed

text \<open>\<open>value += this.current()\<close>: beyond the end of the input the text \<open>undefined\<close> is appended.\<close>

definition currentText :: "string \<Rightarrow> Lexer \<Rightarrow> string" where
  "currentText input lx = (case current input lx of Some c \<Rightarrow> [c] | None \<Rightarrow> ''undefined'')"

function readStringLoop :: "string \<Rightarrow> char \<Rightarrow> Lexer \<Rightarrow> string \<Rightarrow> Lexer \<times> string" where
  "readStringLoop input quote lx v =
     (if lx_pos lx < length input \<and> input ! lx_pos lx \<noteq> quote
      then if input ! lx_pos lx = backslash
           then readStringLoop input quote (advance (advance lx)) (v @ currentText input (advance lx))
           else readStringLoop input quote (advance lx) (v @ currentText input lx)
      else (lx, v))"
  by pat_completeness auto
termination
  by (relation "measure (\<lambda>(input, quote, lx, v). length input - lx_pos lx)")
     (auto simp: advance_def)

declare readStringLoop.simps [simp del]

definition readString :: "string \<Rightarrow> char \<Rightarrow> Lexer \<Rightarrow> Token \<times> Lexer" where
  "readString input quote lx =
     (let start = lx_column lx;
          (lx1, v) = readStringLoop input quote (advance lx) [];
          lx2 = advance lx1
      in (\<lparr> tok_type = STRING, tok_value = v, tok_line = lx_line lx2, tok_column = start \<rparr>, lx2))"

function readNumberLoop :: "string \<Rightarrow> Lexer \<Rightarrow> string \<Rightarrow> Lexer \<times> string" where
  "readNumberLoop input lx v =
     (if lx_pos lx < length input \<and> (isDigit (input ! lx_pos lx) \<or> input ! lx_pos lx = CHR ''.'')
      then readNumberLoop input (advance lx) (v @ [input ! lx_pos lx])
      else (lx, v))"
  by pat_completeness auto
termination
  by (relation "measure (\<lambda>(input, lx, v). length input - lx_pos lx)") (auto simp: advance_def)

declare readNumberLoop.simps [simp del]

definition readNumber :: "string \<Rightarrow> Lexer \<Rightarrow> Token \<times> Lexer" where
  "readNumber input lx =
     (let start = lx_column lx;
          (lx1, v) = readNumberLoop input lx []
      in (\<lparr> tok_type = NUMBER, tok_value = v, tok_line = lx_line lx1, tok_column = start \<rparr>, lx1))"

function readIdentifierLoop :: "string \<Rightarrow> Lexer \<Rightarrow> string \<Rightarrow> Lexer \<times> string" where
  "readIdentifierLoop input lx v =
     (if lx_pos lx < length input \<and> isAlphaNumeric (input ! lx_pos lx)
      then readIdentifierLoop input (advance lx) (v @ [input ! lx_pos lx])
      else (lx, v))"
  by pat_completeness auto
termination
  by (relation "measure (\<lambda>(input, lx, v). length input - lx_pos lx)") (auto simp: advance_def)

declare readIdentifierLoop.simps [simp del]

definition readIdentifier :: "string \<Rightarrow> Lexer \<Rightarrow> Token \<times> Lexer" where
  "readIdentifier input lx =
     (let start = lx_column lx;
          (lx1, v) = readIdentifierLoop input lx []
      in (\<lparr> tok_type = keywordType v, tok_value = v, tok_line = lx_line lx1, tok_column = start \<rparr>, lx1))"

text \<open>The \<open>switch\<close> over punctuation and operators, with \<open>UNKNOWN\<close> as its default.\<close>

definition scanPunctuation :: "string \<Rightarrow> char \<Rightarrow> Lexer \<Rightarrow> Lexer" where
  "scanPunctuation input ch lx =
     (if ch = CHR ''{'' then advance (push (makeToken LBRACE [ch] lx) lx)
      else if ch = CHR ''}'' then advance (push (makeToken RBRACE [ch] lx) lx)
      else if ch = CHR ''['' then advance (push (makeToken LBRACKET [ch] lx) lx)
      else if ch = CHR '']'' then advance (push (makeToken RBRACKET [ch] lx) lx)
      else if ch = CHR ''('' then advance (push (makeToken LPAREN [ch] lx) lx)
      else if ch = CHR '')'' then advance (push (makeToken RPAREN [ch] lx) lx)
      else if ch = CHR '','' then advance (push (makeToken COMMA [ch] lx) lx)
      else if ch = CHR '':'' then advance (push (makeToken COLON [ch] lx) lx)
      else if ch = CHR ''.'' then advance (push (makeToken DOT [ch] lx) lx)
      else if ch = CHR ''-'' then advance (push (makeToken REL_ONE_TO_ONE ''-'' lx) lx)
      else if ch = CHR ''<'' then
        (if peek input lx = Some CHR ''>''
         then advance (advance (push (makeToken REL_MANY_TO_MANY ''<>'' lx) lx))
         else advance (push (makeToken REL_ONE_TO_MANY ''<'' lx) lx))
      else if ch = CHR ''>'' then advance (push (makeToken REL_MANY_TO_ONE ''>'' lx) lx)
      else advance (push (makeToken UNKNOWN [ch] lx) lx))"

text \<open>
  One round of the loop of \<open>tokenize\<close> after whitespace and comments were skipped, at a
  position inside the input.
\<close>

definition scanToken :: "string \<Rightarrow> Lexer \<Rightarrow> Lexer" where
  "scanToken input lx =
     (let ch = input ! lx_pos lx
      in if ch = newline
         then (advance (push (makeToken NEWLINE [newline] lx) lx))
                \<lparr>lx_line := lx_line lx + 1, lx_column := 1\<rparr>
         else if ch = CHR 0x27 \<or> ch = CHR 0x22 \<or> ch = CHR 0x60
         then (let (t, lx1) = readString input ch lx in push t lx1)
         else if isDigit ch
         then (let (t, lx1) = readNumber input lx in push t lx1)
         else if isAlpha ch \<or> ch = CHR ''_''
         then (let (t, lx1) = readIdentifier input lx in push t lx1)
         else scanPunctuation input ch lx)"

lemma readStringLoop_pos: "lx_pos lx \<le> lx_pos (fst (readStringLoop input quote lx v))"
proof (induction input quote lx v rule: readStringLoop.induct)
  case (1 input quote lx v)
  show ?case
  proof (cases "lx_pos lx < length input \<and> input ! lx_pos lx \<noteq> quote")
    case False
    then show ?thesis by (subst readStringLoop.simps) auto
  next
    case True
    show ?thesis
    proof (cases "input ! lx_pos lx = backslash")
      case bs: True
      from 1(1) True bs
      have "lx_pos (advance (advance lx))
              \<le> lx_pos (fst (readStringLoop input quote (advance (advance lx))
                                (v @ currentText input (advance lx))))" by simp
      with True bs show ?thesis by (subst readStringLoop.simps) (simp add: advance_def)
    next
      case False
      from 1(2) True False
      have "lx_pos (advance lx)
              \<le> lx_pos (fst (readStringLoop input quote (advance lx) (v @ currentText input lx)))"
        by simp
      with True False show ?thesis by (subst readStringLoop.simps) (simp add: advance_def)
    qed
  qed
qed

lemma readNumberLoop_pos: "lx_pos lx \<le> lx_pos (fst (readNumberLoop input lx v))"
proof (induction input lx v rule: readNumberLoop.induct)
  case (1 input lx v)
  show ?case
  proof (cases "lx_pos lx < length input \<and> (isDigit (input ! lx_pos lx) \<or> input ! lx_pos lx = CHR ''.'')")
    case True
    with 1 have "lx_pos (advance lx) \<le> lx_pos (fst (readNumberLoop input (advance lx) (v @ [input ! lx_pos lx])))"
      by simp
    with True show ?thesis by (subst readNumberLoop.simps) (simp add: advance_def)
  next
    case False
    then show ?thesis by (subst readNumberLoop.simps) auto
  qed
qed

lemma readIdentifierLoop_pos: "lx_pos lx \<le> lx_pos (fst (readIdentifierLoop input lx v))"
proof (induction input lx v rule: readIdentifierLoop.induct)
  case (1 input lx v)
  show ?case
  proof (cases "lx_pos lx < length input \<and> isAlphaNumeric (input ! lx_pos lx)")
    case True
    with 1 have "lx_pos (advance lx) \<le> lx_pos (fst (readIdentifierLoop input (advance lx) (v @ [input ! lx_pos lx])))"
      by simp
    with True show ?thesis by (subst readIdentifierLoop.simps) (simp add: advance_def)
  next
    case False
    then show ?thesis by (subst readIdentifierLoop.simps) auto
  qed
qed

lemma isAlpha_isAlphaNumeric: "isAlpha ch \<or> ch = CHR ''_'' \<Longrightarrow> isAlphaNumeric ch"
  by (auto simp: isAlpha_def isAlphaNumeric_def)

lemma scanToken_progress:
  assumes "lx_pos lx < length input"
  shows "lx_pos lx < lx_pos (scanToken input lx)"
proof -
  let ?ch = "input ! lx_pos lx"
  have str: "lx_pos lx < lx_pos (snd (readString input q lx))" for q
  proof -
    obtain lx1 v where eq: "readStringLoop input q (advance lx) [] = (lx1, v)" by force
    with readStringLoop_pos [of "advance lx" input q "[]"]
    have "lx_pos (advance lx) \<le> lx_pos lx1" by simp
    then show ?thesis using eq by (simp add: readString_def Let_def advance_def)
  qed
  have num: "lx_pos lx < lx_pos (snd (readNumber input lx))" if "isDigit ?ch"
  proof -
    have "readNumberLoop input lx [] = readNumberLoop input (advance lx) [?ch]"
      using that assms by (subst readNumberLoop.simps) simp
    moreover obtain lx1 v where eq: "readNumberLoop input (advance lx) [?ch] = (lx1, v)" by force
    moreover from readNumberLoop_pos [of "advance lx" input "[?ch]"] eq
    have "lx_pos (advance lx) \<le> lx_pos lx1" by simp
    ultimately show ?thesis
      by (simp add: readNumber_def Let_def advance_def)
  qed
  have ident: "lx_pos lx < lx_pos (snd (readIdentifier input lx))" if "isAlpha ?ch \<or> ?ch = CHR ''_''"
  proof -
    have "readIdentifierLoop input lx [] = readIdentifierLoop input (advance lx) [?ch]"
      using isAlpha_isAlphaNumeric [OF that] assms by (subst readIdentifierLoop.simps) simp
    moreover obtain lx1 v where eq: "readIdentifierLoop input (advance lx) [?ch] = (lx1, v)"
      by force
    moreover from readIdentifierLoop_pos [of "advance lx" input "[?ch]"] eq
    have "lx_pos (advance lx) \<le> lx_pos lx1" by simp
    ultimately show ?thesis
      by (simp add: readIdentifier_def Let_def advance_def)
  qed
  have punct: "lx_pos lx < lx_pos (scanPunctuation input ?ch lx)"
    by (simp add: scanPunctuation_def advance_def push_def)
  have pushed: "lx_pos (case p of (t, lx1) \<Rightarrow> push t lx1) = lx_pos (snd p)" for p :: "Token \<times> Lexer"
    by (cases p) (simp add: push_def)
  show ?thesis
    unfolding scanToken_def Let_def
    using str num ident punct
    by (simp add: pushed advance_def push_def)
qed

function tokenizeLoop :: "string \<Rightarrow> Lexer \<Rightarrow> Lexer" where
  "tokenizeLoop input lx =
     (if lx_pos lx < length input
      then (let lx1 = skipWhitespaceAndComments input lx
            in if lx_pos lx1 \<ge> length input then lx1
               else tokenizeLoop input (scanToken input lx1))
      else lx)"
  by pat_completeness auto
termination
proof (relation "measure (\<lambda>(input, lx). length input - lx_pos lx)", goal_cases)
  case 1
  then show ?case by simp
next
  case (2 input lx lx1)
  then have "lx_pos lx1 < lx_pos (scanToken input lx1)"
    by (intro scanToken_progress) simp
  moreover have "lx_pos lx \<le> lx_pos lx1"
    using 2 skipWhitespaceAndComments_pos by simp
  ultimately show ?case using 2 by auto
qed

declare tokenizeLoop.simps [simp del]

definition tokenize :: "string \<Rightarrow> Token list" where
  "tokenize input =
     (let lx = tokenizeLoop input \<lparr> lx_pos = 0, lx_line = 1, lx_column = 1, lx_tokens = [] \<rparr>
      in lx_tokens (push (makeToken EOF [] lx) lx))"

text \<open>
  A character, with the character after it, that the lexer recognises as none of: whitespace,
  the start of a comment, a newline, a string delimiter, a digit, the start of an
  identifier or keyword, punctuation, a relation operator.
\<close>

definition unrecognized :: "char \<Rightarrow> char option \<Rightarrow> bool" where
  "unrecognized ch nxt \<longleftrightarrow>
     ch \<noteq> CHR '' '' \<and> ch \<noteq> CHR 0x09 \<and> ch \<noteq> CHR 0x0D
     \<and> (ch = CHR ''/'' \<and> nxt = Some CHR ''/'') = False
     \<and> (ch = CHR ''/'' \<and> nxt = Some CHR ''*'') = False
     \<and> ch \<noteq> newline
     \<and> ch \<noteq> CHR 0x27 \<and> ch \<noteq> CHR 0x22 \<and> ch \<noteq> CHR 0x60
     \<and> isDigit ch = False
     \<and> isAlpha ch = False \<and> ch \<noteq> CHR ''_''
     \<and> ch \<notin> set ''{}[](),:.-<>''"

text \<open>The regular expression \<open>[0-9]+(\.[0-9]+)?\<close>, matched against a whole string.\<close>

definition matchesNumber :: "string \<Rightarrow> bool" where
  "matchesNumber v =
     (let whole = takeWhile isDigit v; rest = dropWhile isDigit v
      in whole \<noteq> [] \<and>
         (rest = [] \<or> (hd rest = CHR ''.'' \<and> tl rest \<noteq> [] \<and> list_all isDigit (tl rest))))"

text \<open>Rules that evaluate the lexer on a given input.\<close>

lemmas lexer_eval =
  tokenize_def tokenizeLoop.simps skipWhitespaceAndComments.simps skipLineComment.simps
  skipBlockComment.simps scanToken_def scanPunctuation_def readString_def readStringLoop.simps
  readNumber_def readNumberLoop.simps readIdentifier_def readIdentifierLoop.simps
  keywordType_def KEYWORDS_def objectPrototypeKeys_def isDigit_def isAlpha_def isAlphaNumeric_def
  advance_def push_def makeToken_def peek_def current_def currentText_def newline_def backslash_def
  Let_def

section \<open>Parser (core/parser/parser.ts)\<close>

text \<open>
  What a call of the parser can end with instead of a value: a \<open>ParserError\<close> thrown by the
  parser, or the \<open>TypeError\<close> of the runtime when a field of \<open>undefined\<close> is read.
\<close>

datatype ParseFailure =
    ParserError (pe_message: string) (pe_line: nat) (pe_column: nat) (pe_value: "string option")
  | TypeError

text \<open>A parsing method returns a value and the new \<open>this.pos\<close>, or fails.\<close>

type_synonym 'a presult = "ParseFailure + 'a \<times> nat"

definition bindP :: "'a presult \<Rightarrow> ('a \<Rightarrow> nat \<Rightarrow> 'b presult) \<Rightarrow> 'b presult" where
  "bindP r f = (case r of Inl e \<Rightarrow> Inl e | Inr (a, pos) \<Rightarrow> f a pos)"

fun tokenTypeString :: "TokenType \<Rightarrow> string" where
  "tokenTypeString TABLE = ''TABLE''"
| "tokenTypeString ENUM = ''ENUM''"
| "tokenTypeString REF = ''REF''"
| "tokenTypeString TABLEGROUP = ''TABLEGROUP''"
| "tokenTypeString AS = ''AS''"
| "tokenTypeString NOTE = ''NOTE''"
| "tokenTypeString INDEXES = ''INDEXES''"
| "tokenTypeString LBRACE = ''LBRACE''"
| "tokenTypeString RBRACE = ''RBRACE''"
| "tokenTypeString LBRACKET = ''LBRACKET''"
| "tokenTypeString RBRACKET = ''RBRACKET''"
| "tokenTypeString LPAREN = ''LPAREN''"
| "tokenTypeString RPAREN = ''RPAREN''"
| "tokenTypeString COMMA = ''COMMA''"
| "tokenTypeString COLON = ''COLON''"
| "tokenTypeString DOT = ''DOT''"
| "tokenTypeString REL_ONE_TO_ONE = ''REL_ONE_TO_ONE''"
| "tokenTypeString REL_ONE_TO_MANY = ''REL_ONE_TO_MANY''"
| "tokenTypeString REL_MANY_TO_ONE = ''REL_MANY_TO_ONE''"
| "tokenTypeString REL_MANY_TO_MANY = ''REL_MANY_TO_MANY''"
| "tokenTypeString IDENTIFIER = ''IDENTIFIER''"
| "tokenTypeString STRING = ''STRING''"
| "tokenTypeString NUMBER = ''NUMBER''"
| "tokenTypeString NEWLINE = ''NEWLINE''"
| "tokenTypeString EOF = ''EOF''"
| "tokenTypeString UNKNOWN = ''UNKNOWN''"
| "tokenTypeString (INHERITED k) = inheritedString k"

text \<open>\<open>this.tokens[this.pos]\<close> and \<open>this.tokens[this.pos + 1]\<close>; \<open>None\<close> is \<open>undefined\<close>.\<close>

definition parserCurrent :: "Token list \<Rightarrow> nat \<Rightarrow> Token option" where
  "parserCurrent ts pos = (if pos < length ts then Some (ts ! pos) else None)"

definition peekNext :: "Token list \<Rightarrow> nat \<Rightarrow> Token option" where
  "peekNext ts pos = parserCurrent ts (pos + 1)"

definition check :: "Token list \<Rightarrow> nat \<Rightarrow> TokenType \<Rightarrow> bool" where
  "check ts pos ty = (case parserCurrent ts pos of Some t \<Rightarrow> tok_type t = ty | None \<Rightarrow> False)"

definition isAtEnd :: "Token list \<Rightarrow> nat \<Rightarrow> bool" where
  "isAtEnd ts pos \<longleftrightarrow> check ts pos EOF \<or> pos \<ge> length ts"

definition expect :: "Token list \<Rightarrow> nat \<Rightarrow> TokenType \<Rightarrow> Token presult" where
  "expect ts pos ty =
     (if check ts pos ty then Inr (ts ! pos, pos + 1)
      else (case parserCurrent ts pos of
              Some tok \<Rightarrow>
                Inl (ParserError
                      (''Expected '' @ tokenTypeString ty @ '' but got ''
                       @ tokenTypeString (tok_type tok) @ '' ('' @ quoted (tok_value tok) @ '')'')
                      (tok_line tok) (tok_column tok) (Some (tok_value tok)))
            | None \<Rightarrow>
                Inl (ParserError
                      (''Expected '' @ tokenTypeString ty @ '' but got undefined (''
                       @ quoted ''undefined'' @ '')'')
                      0 0 None)))"

function skipNewlines :: "Token list \<Rightarrow> nat \<Rightarrow> nat" where
  "skipNewlines ts pos = (if check ts pos NEWLINE then skipNewlines ts (pos + 1) else pos)"
  by pat_completeness auto
termination
  by (relation "measure (\<lambda>(ts, pos). length ts - pos)")
     (auto simp: check_def parserCurrent_def split: if_splits)

declare skipNewlines.simps [simp del]

text \<open>
  \<open>toLowerCase\<close> on the letters \<open>A\<close> to \<open>Z\<close>. The parser only compares lower-cased texts
  with words of the letters \<open>a\<close> to \<open>z\<close> and the underscore, and no other 8-bit character
  is mapped to one of those.
\<close>

definition lowerChar :: "char \<Rightarrow> char" where
  "lowerChar c =
     (case map_of (zip ''ABCDEFGHIJKLMNOPQRSTUVWXYZ'' ''abcdefghijklmnopqrstuvwxyz'') c of
        Some l \<Rightarrow> l
      | None \<Rightarrow> c)"

definition toLowerCase :: "string \<Rightarrow> string" where
  "toLowerCase s = map lowerChar s"

definition digitValue :: "char \<Rightarrow> nat" where
  "digitValue c = (case map_of (zip ''0123456789'' [0, 1, 2, 3, 4, 5, 6, 7, 8, 9]) c of
                     Some d \<Rightarrow> d | None \<Rightarrow> 0)"

definition decimal :: "string \<Rightarrow> nat" where
  "decimal ds = foldl (\<lambda>n c. 10 * n + digitValue c) 0 ds"

text \<open>
  \<open>parseInt(v, 10)\<close> and \<open>parseFloat(v)\<close> on the text of a token: the longest prefix that is a
  decimal numeral, rounded to a double. (Token texts carry no leading blanks, signs or
  exponents where the parser converts them.)
\<close>

definition parseInt :: "string \<Rightarrow> JsNum" where
  "parseInt v = (case takeWhile isDigit v of [] \<Rightarrow> NaN | ds \<Rightarrow> toDouble (real (decimal ds)))"

definition parseFloat :: "string \<Rightarrow> JsNum" where
  "parseFloat v =
     (let whole = takeWhile isDigit v; rest = dropWhile isDigit v;
          frac = (case rest of c # cs \<Rightarrow> if c = CHR ''.'' then takeWhile isDigit cs else []
                  | [] \<Rightarrow> [])
      in if whole = [] \<and> frac = [] then NaN
         else toDouble (real (decimal whole) + real (decimal frac) / 10 ^ length frac))"

definition columnTypeMapping :: "(string \<times> ColumnType) list" where
  "columnTypeMapping =
     [(''int'', CT_int), (''integer'', CT_int), (''bigint'', CT_bigint),
      (''smallint'', CT_smallint), (''float'', CT_float), (''double'', CT_double),
      (''decimal'', CT_decimal), (''numeric'', CT_decimal), (''varchar'', CT_varchar),
      (''char'', CT_char), (''text'', CT_text), (''bool'', CT_boolean),
      (''boolean'', CT_boolean), (''date'', CT_date), (''datetime'', CT_datetime),
      (''timestamp'', CT_timestamp), (''time'', CT_time), (''uuid'', CT_uuid),
      (''json'', CT_json), (''jsonb'', CT_json), (''blob'', CT_blob), (''binary'', CT_blob),
      (''enum'', CT_enum)]"

definition mapColumnType :: "string \<Rightarrow> ColumnType" where
  "mapColumnType raw =
     (let lower = toLowerCase raw
      in case map_of columnTypeMapping lower of
           Some t \<Rightarrow> t
         | None \<Rightarrow> if lower \<in> set objectPrototypeKeys then CT_inherited lower else CT_unknown)"

definition parseDefaultValue :: "Token list \<Rightarrow> nat \<Rightarrow> DefaultValue presult" where
  "parseDefaultValue ts pos =
     (case parserCurrent ts pos of
        None \<Rightarrow> Inl TypeError
      | Some tok \<Rightarrow>
          Inr (if tok_type tok = STRING then DefString (tok_value tok)
               else if tok_type tok = NUMBER then DefNumber (parseFloat (tok_value tok))
               else if toLowerCase (tok_value tok) = ''null'' then DefNull
               else if toLowerCase (tok_value tok) = ''true'' then DefBool True
               else if toLowerCase (tok_value tok) = ''false'' then DefBool False
               else DefString (tok_value tok),
               pos + 1))"

text \<open>The optional \<open>(n)\<close> or \<open>(p, s)\<close> after a column type: \<open>length\<close>, \<open>precision\<close>, \<open>scale\<close>.\<close>

definition parseTypeArguments ::
  "Token list \<Rightarrow> nat \<Rightarrow> (JsNum option \<times> JsNum option \<times> JsNum option) presult" where
  "parseTypeArguments ts pos =
     (if check ts pos LPAREN
      then bindP (expect ts (pos + 1) NUMBER) (\<lambda>t1 p1.
             let first = parseInt (tok_value t1)
             in if check ts p1 COMMA
                then bindP (expect ts (p1 + 1) NUMBER) (\<lambda>t2 p2.
                       bindP (expect ts p2 RPAREN) (\<lambda>_ p3.
                         Inr ((None, Some first, Some (parseInt (tok_value t2))), p3)))
                else bindP (expect ts p1 RPAREN) (\<lambda>_ p3. Inr ((Some first, None, None), p3)))
      else Inr ((None, None, None), pos))"

text \<open>One round of the loop over the settings between \<open>[\<close> and \<open>]\<close> of a column.\<close>

definition columnSetting :: "Token list \<Rightarrow> nat \<Rightarrow> ColumnSettings \<Rightarrow> ColumnSettings presult" where
  "columnSetting ts pos settings =
     (case parserCurrent ts pos of
        None \<Rightarrow> Inl TypeError
      | Some tok \<Rightarrow>
          (let settingName = toLowerCase (tok_value tok); p1 = pos + 1
           in bindP
                (if settingName = ''pk'' \<or> settingName = ''primary'' \<or> settingName = ''primary_key''
                 then Inr (settings\<lparr>cs_primaryKey := Some True\<rparr>, p1)
                 else if settingName = ''unique''
                 then Inr (settings\<lparr>cs_unique := Some True\<rparr>, p1)
                 else if settingName = ''not''
                 then (case parserCurrent ts p1 of
                         None \<Rightarrow> Inl TypeError
                       | Some t1 \<Rightarrow>
                           if toLowerCase (tok_value t1) = ''null''
                           then Inr (settings\<lparr>cs_notNull := Some True\<rparr>, p1 + 1)
                           else Inr (settings, p1))
                 else if settingName = ''notnull'' \<or> settingName = ''not_null''
                 then Inr (settings\<lparr>cs_notNull := Some True\<rparr>, p1)
                 else if settingName = ''increment'' \<or> settingName = ''auto_increment''
                 then Inr (settings\<lparr>cs_autoIncrement := Some True\<rparr>, p1)
                 else if settingName = ''default''
                 then bindP (parseDefaultValue ts (if check ts p1 COLON then p1 + 1 else p1))
                        (\<lambda>v p2. Inr (settings\<lparr>cs_default := Some v\<rparr>, p2))
                 else if settingName = ''note''
                 then bindP (expect ts (if check ts p1 COLON then p1 + 1 else p1) STRING)
                        (\<lambda>t p2. Inr (settings\<lparr>cs_note := Some (tok_value t)\<rparr>, p2))
                 else Inr (settings, p1))
                (\<lambda>s p. Inr (s, if check ts p COMMA then p + 1 else p))))"

lemma expect_pos: "expect ts pos ty = Inr (t, p) \<Longrightarrow> p = pos + 1"
  by (auto simp: expect_def split: if_splits option.splits)

lemma parseDefaultValue_pos: "parseDefaultValue ts pos = Inr (v, p) \<Longrightarrow> p = pos + 1"
  by (auto simp: parseDefaultValue_def split: option.splits)

lemma columnSetting_progress: "columnSetting ts pos settings = Inr (s, p) \<Longrightarrow> pos < p"
  by (auto simp: columnSetting_def bindP_def Let_def
      split: option.splits if_splits sum.splits prod.splits
      dest!: expect_pos parseDefaultValue_pos)

function columnSettingsLoop :: "Token list \<Rightarrow> nat \<Rightarrow> ColumnSettings \<Rightarrow> ColumnSettings presult" where
  "columnSettingsLoop ts pos settings =
     (if \<not> check ts pos RBRACKET \<and> \<not> isAtEnd ts pos
      then (case columnSetting ts pos settings of
              Inl e \<Rightarrow> Inl e
            | Inr (settings', pos') \<Rightarrow> columnSettingsLoop ts pos' settings')
      else Inr (settings, pos))"
  by pat_completeness auto
termination
proof (relation "measure (\<lambda>(ts, pos, settings). length ts - pos)", goal_cases)
  case 1
  then show ?case by simp
next
  case (2 ts pos settings r settings' pos')
  then have "pos < pos'" using columnSetting_progress [of ts pos settings settings' pos'] by simp
  moreover from 2 have "pos < length ts" by (simp add: isAtEnd_def)
  ultimately show ?case by simp
qed

declare columnSettingsLoop.simps [simp del]

definition parseColumn :: "Token list \<Rightarrow> nat \<Rightarrow> Column presult" where
  "parseColumn ts pos =
     bindP (expect ts pos IDENTIFIER) (\<lambda>nameTok p1.
     bindP (expect ts p1 IDENTIFIER) (\<lambda>typeTok p2.
     bindP (parseTypeArguments ts p2) (\<lambda>(len, precision, scale) p3.
       let settings = \<lparr> cs_primaryKey = None, cs_unique = None, cs_notNull = None,
                        cs_autoIncrement = None, cs_default = None, cs_note = None,
                        cs_length = len, cs_precision = precision, cs_scale = scale,
                        cs_enumValues = None \<rparr>
       in bindP (if check ts p3 LBRACKET
                 then bindP (columnSettingsLoop ts (p3 + 1) settings) (\<lambda>s p4.
                        bindP (expect ts p4 RBRACKET) (\<lambda>_ p5. Inr (s, p5)))
                 else Inr (settings, p3))
            (\<lambda>s p6. Inr (\<lparr> col_name = tok_value nameTok,
                             col_type = mapColumnType (tok_value typeTok),
                             col_rawType = Some (tok_value typeTok),
                             col_settings = s \<rparr>, p6)))))"
definition parseNote :: "Token list \<Rightarrow> nat \<Rightarrow> string presult" where
  "parseNote ts pos =
     bindP (expect ts pos NOTE) (\<lambda>_ p1.
     bindP (expect ts (if check ts p1 COLON then p1 + 1 else p1) STRING) (\<lambda>t p2.
       Inr (tok_value t, p2)))"

text \<open>The loop over the column names of an index, between \<open>(\<close> and \<open>)\<close>.\<close>

function indexColumnsLoop :: "Token list \<Rightarrow> nat \<Rightarrow> string list \<Rightarrow> string list presult" where
  "indexColumnsLoop ts pos cols =
     (if \<not> check ts pos RPAREN \<and> \<not> isAtEnd ts pos
      then (case expect ts pos IDENTIFIER of
              Inl e \<Rightarrow> Inl e
            | Inr (t, p1) \<Rightarrow>
                indexColumnsLoop ts (if check ts p1 COMMA then p1 + 1 else p1) (cols @ [tok_value t]))
      else Inr (cols, pos))"
  by pat_completeness auto
termination
proof (relation "measure (\<lambda>(ts, pos, cols). length ts - pos)", goal_cases)
  case 1
  then show ?case by simp
next
  case (2 ts pos cols r t p1)
  then have "p1 = pos + 1" using expect_pos [of ts pos IDENTIFIER t p1] by simp
  moreover from 2 have "pos < length ts" by (simp add: isAtEnd_def)
  ultimately show ?case by auto
qed

declare indexColumnsLoop.simps [simp del]

text \<open>One round of the loop over the settings of an index, between \<open>[\<close> and \<open>]\<close>.\<close>

definition indexSetting :: "Token list \<Rightarrow> nat \<Rightarrow> Index \<Rightarrow> Index presult" where
  "indexSetting ts pos idx =
     (case parserCurrent ts pos of
        None \<Rightarrow> Inl TypeError
      | Some tok \<Rightarrow>
          (let s = toLowerCase (tok_value tok); p1 = pos + 1;
               idx1 = (if s = ''unique'' then idx\<lparr>idx_unique := Some True\<rparr> else idx)
           in bindP
                (if s = ''name''
                 then bindP (expect ts (if check ts p1 COLON then p1 + 1 else p1) STRING)
                        (\<lambda>t p2. Inr (idx1\<lparr>idx_name := Some (tok_value t)\<rparr>, p2))
                 else Inr (idx1, p1))
                (\<lambda>i p. Inr (i, if check ts p COMMA then p + 1 else p))))"

lemma indexSetting_progress: "indexSetting ts pos idx = Inr (i, p) \<Longrightarrow> pos < p"
  by (auto simp: indexSetting_def bindP_def Let_def
      split: option.splits if_splits sum.splits prod.splits dest!: expect_pos)

function indexSettingsLoop :: "Token list \<Rightarrow> nat \<Rightarrow> Index \<Rightarrow> Index presult" where
  "indexSettingsLoop ts pos idx =
     (if \<not> check ts pos RBRACKET \<and> \<not> isAtEnd ts pos
      then (case indexSetting ts pos idx of
              Inl e \<Rightarrow> Inl e
            | Inr (idx', pos') \<Rightarrow> indexSettingsLoop ts pos' idx')
      else Inr (idx, pos))"
  by pat_completeness auto
termination
proof (relation "measure (\<lambda>(ts, pos, idx). length ts - pos)", goal_cases)
  case 1
  then show ?case by simp
next
  case (2 ts pos idx r idx' pos')
  then have "pos < pos'" using indexSetting_progress [of ts pos idx idx' pos'] by simp
  moreover from 2 have "pos < length ts" by (simp add: isAtEnd_def)
  ultimately show ?case by simp
qed

declare indexSettingsLoop.simps [simp del]

text \<open>
  One round of the loop of \<open>parseIndexes\<close>, up to \<open>table.indexes.push(idx)\<close>. When the
  current token opens none of the three forms, the round consumes nothing.
\<close>

definition parseIndex :: "Token list \<Rightarrow> nat \<Rightarrow> Index presult" where
  "parseIndex ts pos =
     (let idx = \<lparr> idx_name = None, idx_columns = [], idx_unique = None, idx_type = None \<rparr>
      in bindP
           (if check ts pos LPAREN
            then bindP (indexColumnsLoop ts (pos + 1) []) (\<lambda>cols p1.
                   bindP (expect ts p1 RPAREN) (\<lambda>_ p2. Inr (idx\<lparr>idx_columns := cols\<rparr>, p2)))
            else if check ts pos IDENTIFIER
            then bindP (expect ts pos IDENTIFIER) (\<lambda>t p1. Inr (idx\<lparr>idx_columns := [tok_value t]\<rparr>, p1))
            else Inr (idx, pos))
           (\<lambda>idx1 p3.
              if check ts p3 LBRACKET
              then bindP (indexSettingsLoop ts (p3 + 1) idx1) (\<lambda>idx2 p4.
                     bindP (expect ts p4 RBRACKET) (\<lambda>_ p5. Inr (idx2, p5)))
              else Inr (idx1, p3)))"

text \<open>
  The loop of \<open>parseIndexes\<close> does not end when a round consumes no token (for instance at
  a comma): its result is then \<open>None\<close>.
\<close>

partial_function (option) parseIndexesLoop ::
  "Token list \<Rightarrow> nat \<Rightarrow> Table \<Rightarrow> (ParseFailure + Table \<times> nat) option" where
  "parseIndexesLoop ts pos table =
     (if \<not> check ts pos RBRACE \<and> \<not> isAtEnd ts pos
      then (case parseIndex ts pos of
              Inl e \<Rightarrow> Some (Inl e)
            | Inr (idx, p1) \<Rightarrow>
                parseIndexesLoop ts (skipNewlines ts p1)
                  (table\<lparr>tbl_indexes := tbl_indexes table @ [idx]\<rparr>))
      else Some (Inr (table, pos)))"

definition parseIndexes :: "Token list \<Rightarrow> nat \<Rightarrow> Table \<Rightarrow> (ParseFailure + Table \<times> nat) option" where
  "parseIndexes ts pos table =
     (case bindP (expect ts pos INDEXES) (\<lambda>_ p1. expect ts p1 LBRACE) of
        Inl e \<Rightarrow> Some (Inl e)
      | Inr (_, p2) \<Rightarrow>
          (case parseIndexesLoop ts (skipNewlines ts p2) table of
             None \<Rightarrow> None
           | Some r \<Rightarrow> Some (bindP r (\<lambda>table' p3.
                         bindP (expect ts p3 RBRACE) (\<lambda>_ p4. Inr (table', p4))))))"

text \<open>One round of the loop over the body of a table, up to its \<open>skipNewlines\<close>.\<close>

definition tableItem :: "Token list \<Rightarrow> nat \<Rightarrow> Table \<Rightarrow> (ParseFailure + Table \<times> nat) option" where
  "tableItem ts pos table =
     (if check ts pos INDEXES then parseIndexes ts pos table
      else if check ts pos NOTE
      then Some (bindP (parseNote ts pos) (\<lambda>n p. Inr (table\<lparr>tbl_note := Some n\<rparr>, p)))
      else if check ts pos IDENTIFIER
      then Some (bindP (parseColumn ts pos)
                   (\<lambda>c p. Inr (table\<lparr>tbl_columns := tbl_columns table @ [c]\<rparr>, p)))
      else Some (Inr (table, pos + 1)))"

partial_function (option) parseTableLoop ::
  "Token list \<Rightarrow> nat \<Rightarrow> Table \<Rightarrow> (ParseFailure + Table \<times> nat) option" where
  "parseTableLoop ts pos table =
     (if \<not> check ts pos RBRACE \<and> \<not> isAtEnd ts pos
      then (case tableItem ts pos table of
              None \<Rightarrow> None
            | Some (Inl e) \<Rightarrow> Some (Inl e)
            | Some (Inr (table', p1)) \<Rightarrow> parseTableLoop ts (skipNewlines ts p1) table')
      else Some (Inr (table, pos)))"

definition parseTable :: "Token list \<Rightarrow> nat \<Rightarrow> (ParseFailure + Table \<times> nat) option" where
  "parseTable ts pos =
     (case bindP (expect ts pos TABLE) (\<lambda>_ p1.
           bindP (expect ts p1 IDENTIFIER) (\<lambda>nameTok p2.
           bindP (if check ts p2 AS
                  then bindP (expect ts (p2 + 1) IDENTIFIER) (\<lambda>t p3. Inr (Some (tok_value t), p3))
                  else Inr (None, p2)) (\<lambda>alias p4.
           bindP (expect ts p4 LBRACE) (\<lambda>_ p5.
             Inr (\<lparr> tbl_name = tok_value nameTok, tbl_schema = None, tbl_alias = alias,
                    tbl_columns = [], tbl_indexes = [], tbl_note = None \<rparr>, p5))))) of
        Inl e \<Rightarrow> Some (Inl e)
      | Inr (table, p5) \<Rightarrow>
          (case parseTableLoop ts (skipNewlines ts p5) table of
             None \<Rightarrow> None
           | Some r \<Rightarrow> Some (bindP r (\<lambda>table' p6.
                         bindP (expect ts p6 RBRACE) (\<lambda>_ p7. Inr (table', p7))))))"

text \<open>One round of the loop over the values of an enum, up to its \<open>skipNewlines\<close>.\<close>

definition parseEnumValue :: "Token list \<Rightarrow> nat \<Rightarrow> EnumValue presult" where
  "parseEnumValue ts pos =
     bindP (expect ts pos IDENTIFIER) (\<lambda>valTok p1.
     bindP (if check ts p1 LBRACKET
            then (case parserCurrent ts (p1 + 1) of
                    None \<Rightarrow> Inl TypeError
                  | Some tok \<Rightarrow>
                      bindP (if toLowerCase (tok_value tok) = ''note''
                             then bindP (expect ts (if check ts (p1 + 2) COLON then p1 + 3 else p1 + 2) STRING)
                                    (\<lambda>t p2. Inr (Some (tok_value t), p2))
                             else Inr (None, p1 + 1))
                        (\<lambda>note p3. bindP (expect ts p3 RBRACKET) (\<lambda>_ p4. Inr (note, p4))))
            else Inr (None, p1))
       (\<lambda>note p5. Inr (\<lparr> ev_name = tok_value valTok, ev_note = note \<rparr>, p5)))"

lemma bindP_Inr:
  "bindP r f = Inr (b, p) \<Longrightarrow> \<exists>a q. r = Inr (a, q) \<and> f a q = Inr (b, p)"
  by (auto simp: bindP_def split: sum.splits)

lemma parseEnumValue_progress: "parseEnumValue ts pos = Inr (v, p) \<Longrightarrow> pos < p"
  unfolding parseEnumValue_def
  by (auto dest!: bindP_Inr expect_pos split: if_splits option.splits)

lemma skipNewlines_pos: "pos \<le> skipNewlines ts pos"
proof (induction ts pos rule: skipNewlines.induct)
  case (1 ts pos)
  show ?case
  proof (cases "check ts pos NEWLINE")
    case True
    with 1 have "pos + 1 \<le> skipNewlines ts (pos + 1)" by simp
    with True show ?thesis by (subst skipNewlines.simps) simp
  next
    case False
    then show ?thesis by (subst skipNewlines.simps) simp
  qed
qed

function parseEnumLoop :: "Token list \<Rightarrow> nat \<Rightarrow> EnumValue list \<Rightarrow> EnumValue list presult" where
  "parseEnumLoop ts pos vals =
     (if \<not> check ts pos RBRACE \<and> \<not> isAtEnd ts pos
      then (case parseEnumValue ts pos of
              Inl e \<Rightarrow> Inl e
            | Inr (v, p1) \<Rightarrow> parseEnumLoop ts (skipNewlines ts p1) (vals @ [v]))
      else Inr (vals, pos))"
  by pat_completeness auto
termination
proof (relation "measure (\<lambda>(ts, pos, vals). length ts - pos)", goal_cases)
  case 1
  then show ?case by simp
next
  case (2 ts pos vals r v p1)
  then have "pos < p1" using parseEnumValue_progress [of ts pos v p1] by simp
  moreover have "p1 \<le> skipNewlines ts p1" by (rule skipNewlines_pos)
  moreover from 2 have "pos < length ts" by (simp add: isAtEnd_def)
  ultimately show ?case by simp
qed

declare parseEnumLoop.simps [simp del]

definition parseEnum :: "Token list \<Rightarrow> nat \<Rightarrow> DbEnum presult" where
  "parseEnum ts pos =
     bindP (expect ts pos ENUM) (\<lambda>_ p1.
     bindP (expect ts p1 IDENTIFIER) (\<lambda>nameTok p2.
     bindP (expect ts p2 LBRACE) (\<lambda>_ p3.
     bindP (parseEnumLoop ts (skipNewlines ts p3) []) (\<lambda>vals p4.
     bindP (expect ts p4 RBRACE) (\<lambda>_ p5.
       Inr (\<lparr> enum_name = tok_value nameTok, enum_values = vals, enum_note = None \<rparr>, p5))))))"

definition parseTableColumn :: "Token list \<Rightarrow> nat \<Rightarrow> ColumnRef presult" where
  "parseTableColumn ts pos =
     bindP (expect ts pos IDENTIFIER) (\<lambda>tableTok p1.
     bindP (expect ts p1 DOT) (\<lambda>_ p2.
     bindP (expect ts p2 IDENTIFIER) (\<lambda>columnTok p3.
       Inr (\<lparr> ref_table = tok_value tableTok, ref_column = tok_value columnTok \<rparr>, p3))))"

definition relationTypeOf :: "TokenType \<Rightarrow> RelationType" where
  "relationTypeOf ty =
     (if ty = REL_ONE_TO_ONE then OneToOne
      else if ty = REL_ONE_TO_MANY then OneToMany
      else if ty = REL_MANY_TO_ONE then ManyToOne
      else if ty = REL_MANY_TO_MANY then ManyToMany
      else OneToMany)"

definition parseRelationType :: "Token list \<Rightarrow> nat \<Rightarrow> RelationType presult" where
  "parseRelationType ts pos =
     (case parserCurrent ts pos of
        None \<Rightarrow> Inl TypeError
      | Some tok \<Rightarrow> Inr (relationTypeOf (tok_type tok), pos + 1))"

definition parseRef :: "Token list \<Rightarrow> nat \<Rightarrow> Relation presult" where
  "parseRef ts pos =
     bindP (expect ts pos REF) (\<lambda>_ p1.
     bindP (if check ts p1 IDENTIFIER
               \<and> (case peekNext ts p1 of Some t \<Rightarrow> tok_type t = COLON | None \<Rightarrow> False)
            then bindP (expect ts p1 IDENTIFIER) (\<lambda>t p2. Inr (Some (tok_value t), p2))
            else Inr (None, p1)) (\<lambda>refName p3.
     bindP (parseTableColumn ts (if check ts p3 COLON then p3 + 1 else p3)) (\<lambda>from p4.
     bindP (parseRelationType ts p4) (\<lambda>relType p5.
     bindP (parseTableColumn ts p5) (\<lambda>to p6.
       Inr (\<lparr> rel_name = refName, rel_from = from, rel_to = to, rel_type = relType,
              rel_note = None \<rparr>, p6))))))"

function parseTableGroupLoop :: "Token list \<Rightarrow> nat \<Rightarrow> string list \<Rightarrow> string list presult" where
  "parseTableGroupLoop ts pos tables =
     (if \<not> check ts pos RBRACE \<and> \<not> isAtEnd ts pos
      then (case expect ts pos IDENTIFIER of
              Inl e \<Rightarrow> Inl e
            | Inr (t, p1) \<Rightarrow> parseTableGroupLoop ts (skipNewlines ts p1) (tables @ [tok_value t]))
      else Inr (tables, pos))"
  by pat_completeness auto
termination
proof (relation "measure (\<lambda>(ts, pos, tables). length ts - pos)", goal_cases)
  case 1
  then show ?case by simp
next
  case (2 ts pos tables r t p1)
  then have "p1 = pos + 1" using expect_pos [of ts pos IDENTIFIER t p1] by simp
  moreover have "p1 \<le> skipNewlines ts p1" by (rule skipNewlines_pos)
  moreover from 2 have "pos < length ts" by (simp add: isAtEnd_def)
  ultimately show ?case by simp
qed

declare parseTableGroupLoop.simps [simp del]

definition parseTableGroup :: "Token list \<Rightarrow> nat \<Rightarrow> IRTableGroup presult" where
  "parseTableGroup ts pos =
     bindP (expect ts pos TABLEGROUP) (\<lambda>_ p1.
     bindP (expect ts p1 IDENTIFIER) (\<lambda>nameTok p2.
     bindP (expect ts p2 LBRACE) (\<lambda>_ p3.
     bindP (parseTableGroupLoop ts (skipNewlines ts p3) []) (\<lambda>tables p4.
     bindP (expect ts p4 RBRACE) (\<lambda>_ p5.
       Inr (\<lparr> tg_name = tok_value nameTok, tg_tables = tables \<rparr>, p5))))))"

text \<open>
  One round of the loop of \<open>parse\<close> after its \<open>skipNewlines\<close>: the statement that the
  keyword at \<open>pos\<close> announces, pushed on the schema.
\<close>

definition statement ::
  "Token list \<Rightarrow> nat \<Rightarrow> DatabaseSchema \<Rightarrow> (ParseFailure + DatabaseSchema \<times> nat) option" where
  "statement ts pos schema =
     (if check ts pos TABLE
      then (case parseTable ts pos of
              None \<Rightarrow> None
            | Some r \<Rightarrow> Some (bindP r (\<lambda>t p. Inr (schema\<lparr>ds_tables := ds_tables schema @ [t]\<rparr>, p))))
      else if check ts pos ENUM
      then Some (bindP (parseEnum ts pos)
                   (\<lambda>e p. Inr (schema\<lparr>ds_enums := ds_enums schema @ [e]\<rparr>, p)))
      else if check ts pos REF
      then Some (bindP (parseRef ts pos)
                   (\<lambda>r p. Inr (schema\<lparr>ds_relations := ds_relations schema @ [r]\<rparr>, p)))
      else if check ts pos TABLEGROUP
      then Some (bindP (parseTableGroup ts pos)
                   (\<lambda>g p. Inr (schema\<lparr>ds_tableGroups := ds_tableGroups schema @ [g]\<rparr>, p)))
      else (case parserCurrent ts pos of
              None \<Rightarrow> Some (Inl TypeError)
            | Some tok \<Rightarrow>
                Some (Inl (ParserError
                            (''Unexpected token '' @ tokenTypeString (tok_type tok) @ '' (''
                             @ quoted (tok_value tok) @ '')'')
                            (tok_line tok) (tok_column tok) (Some (tok_value tok))))))"

partial_function (option) parseLoop ::
  "Token list \<Rightarrow> nat \<Rightarrow> DatabaseSchema \<Rightarrow> (ParseFailure + DatabaseSchema) option" where
  "parseLoop ts pos schema =
     (if \<not> isAtEnd ts pos
      then (if isAtEnd ts (skipNewlines ts pos) then Some (Inr schema)
            else (case statement ts (skipNewlines ts pos) schema of
                    None \<Rightarrow> None
                  | Some (Inl e) \<Rightarrow> Some (Inl e)
                  | Some (Inr (schema', p1)) \<Rightarrow> parseLoop ts p1 schema'))
      else Some (Inr schema))"

definition parse :: "string \<Rightarrow> (ParseFailure + DatabaseSchema) option" where
  "parse input =
     parseLoop (tokenize input) 0
       \<lparr> ds_name = None, ds_tables = [], ds_relations = [], ds_enums = [], ds_tableGroups = [],
         ds_note = None \<rparr>"

definition parseDSL :: "string \<Rightarrow> (ParseFailure + DatabaseSchema) option" where
  "parseDSL input = parse input"

text \<open>
  The loop of \<open>parse\<close> once more, keeping the values of \<open>this.pos\<close> at which a round, after
  its \<open>skipNewlines\<close>, dispatches on the keyword of a statement: the positions in the token
  list where the statements of the text begin. The result is \<open>None\<close> when \<open>parse\<close> returns no
  schema.
\<close>

partial_function (option) statementStartsLoop ::
  "Token list \<Rightarrow> nat \<Rightarrow> DatabaseSchema \<Rightarrow> nat list option" where
  "statementStartsLoop ts pos schema =
     (if \<not> isAtEnd ts pos
      then (if isAtEnd ts (skipNewlines ts pos) then Some []
            else (case statement ts (skipNewlines ts pos) schema of
                    None \<Rightarrow> None
                  | Some (Inl e) \<Rightarrow> None
                  | Some (Inr (schema', p1)) \<Rightarrow>
                      Option.bind (statementStartsLoop ts p1 schema')
                        (\<lambda>ps. Some (skipNewlines ts pos # ps))))
      else Some [])"

definition statementStarts :: "string \<Rightarrow> nat list option" where
  "statementStarts input =
     statementStartsLoop (tokenize input) 0
       \<lparr> ds_name = None, ds_tables = [], ds_relations = [], ds_enums = [], ds_tableGroups = [],
         ds_note = None \<rparr>"

text \<open>
  What the start positions \<open>ps\<close> of a run of the loop from \<open>pos\<close> on have to do with the
  schema \<open>result\<close> that the run makes of \<open>schema\<close>.
\<close>

definition startsOk ::
  "Token list \<Rightarrow> nat \<Rightarrow> DatabaseSchema \<Rightarrow> DatabaseSchema \<Rightarrow> nat list \<Rightarrow> bool" where
  "startsOk ts pos schema result ps \<longleftrightarrow>
     sorted_wrt (<) ps
     \<and> list_all (\<lambda>p. pos \<le> p \<and> p < length ts
                      \<and> tok_type (ts ! p) \<in> {TABLE, ENUM, REF, TABLEGROUP}) ps
     \<and> length (ds_tables result)
         = length (ds_tables schema) + length (filter (\<lambda>p. tok_type (ts ! p) = TABLE) ps)
     \<and> length (ds_relations result)
         = length (ds_relations schema) + length (filter (\<lambda>p. tok_type (ts ! p) = REF) ps)"

lemmas parser_eval =
  parseDSL_def parse_def parseLoop.simps statement_def parseTable_def parseTableLoop.simps
  tableItem_def parseIndexes_def parseIndexesLoop.simps parseIndex_def indexSettingsLoop.simps
  indexSetting_def indexColumnsLoop.simps parseNote_def parseColumn_def columnSettingsLoop.simps
  columnSetting_def parseTypeArguments_def parseDefaultValue_def parseEnum_def parseEnumLoop.simps
  parseEnumValue_def parseRef_def parseTableColumn_def parseRelationType_def relationTypeOf_def
  parseTableGroup_def parseTableGroupLoop.simps skipNewlines.simps expect_def check_def
  isAtEnd_def parserCurrent_def peekNext_def bindP_def mapColumnType_def columnTypeMapping_def
  toLowerCase_def lowerChar_def parseInt_def parseFloat_def decimal_def digitValue_def
  quoted_def dq_def inheritedString_def

text \<open>The input \<open>"Table users {\n  id int [pk\n}"\<close>, whose settings bracket is never closed.\<close>

definition unterminatedInput :: string where
  "unterminatedInput = ''Table users {'' @ [CHR 0x0A] @ ''  id int [pk'' @ [CHR 0x0A] @ ''}''"

definition refInput :: string where
  "refInput = ''Ref: a.b x c.d''"

text \<open>Two tables and one relation.\<close>

definition blogInput :: string where
  "blogInput =
     ''Table posts { id int [pk] author_id int }'' @ [CHR 0x0A]
     @ ''Table users { id int [pk] }'' @ [CHR 0x0A]
     @ ''Ref: posts.author_id > users.id''"

text \<open>
  Two \<open>Table\<close> lines and a \<open>Ref\<close> line, the settings bracket of the first column not closed:
  \<open>"Table a {\n  id int [pk\nRef: a.id > b.y\nTable b {\n  y int [pk]\n}"\<close>.
\<close>

definition swallowInput :: string where
  "swallowInput =
     ''Table a {'' @ [CHR 0x0A] @ ''  id int [pk'' @ [CHR 0x0A]
     @ ''Ref: a.id > b.y'' @ [CHR 0x0A]
     @ ''Table b {'' @ [CHR 0x0A] @ ''  y int [pk]'' @ [CHR 0x0A] @ ''}''"

section \<open>Schema diff (core/utils/schemaDiff.ts)\<close>

datatype DiffAction = Added | Removed | Modified | Unchanged

record ColumnDiff =
  cd_name :: string
  cd_action :: DiffAction
  cd_oldType :: "string option"
  cd_newType :: "string option"
  cd_changes :: "string list option"

record TableDiff =
  td_name :: string
  td_action :: DiffAction
  td_columnDiffs :: "ColumnDiff list"
  td_changes :: "string list option"

record RelationDiff =
  rd_id :: string
  rd_action :: DiffAction
  rd_description :: string

record SchemaDiff =
  sd_tables :: "TableDiff list"
  sd_relations :: "RelationDiff list"
  sd_hasChanges :: bool

text \<open>
  A JavaScript \<open>Map\<close> built from a list of entries: \<open>get\<close> finds the last entry of a key,
  and the keys are iterated in the order of their first insertion, as are the elements of
  a \<open>Set\<close>.
\<close>

definition insertionOrder :: "'a list \<Rightarrow> 'a list" where
  "insertionOrder xs = rev (remdups (rev xs))"

definition mapGet :: "('k \<times> 'v) list \<Rightarrow> 'k \<Rightarrow> 'v option" where
  "mapGet entries k = map_of (rev entries) k"

definition mapKeys :: "('k \<times> 'v) list \<Rightarrow> 'k list" where
  "mapKeys entries = insertionOrder (map fst entries)"

text \<open>The changes between two columns of the same name.\<close>

definition columnChanges :: "Column \<Rightarrow> Column \<Rightarrow> string list" where
  "columnChanges oldCol newCol =
     (let oldType = displayType oldCol; newType = displayType newCol
      in (if oldType \<noteq> newType then [''Type changed from '' @ oldType @ '' to '' @ newType] else [])
         @ (if cs_primaryKey (col_settings oldCol) \<noteq> cs_primaryKey (col_settings newCol)
            then [if cs_primaryKey (col_settings newCol) = Some True
                  then ''Set as Primary Key'' else ''Removed Primary Key'']
            else [])
         @ (if cs_notNull (col_settings oldCol) \<noteq> cs_notNull (col_settings newCol)
            then [if cs_notNull (col_settings newCol) = Some True
                  then ''Set as Not Null'' else ''Set as Nullable'']
            else []))"

text \<open>
  One round of the loop over \<open>allColNames\<close>; the state is \<open>columnDiffs\<close> and
  \<open>tableModified\<close>.
\<close>

definition diffColumn ::
  "(string \<times> Column) list \<Rightarrow> (string \<times> Column) list \<Rightarrow> string
   \<Rightarrow> ColumnDiff list \<times> bool \<Rightarrow> ColumnDiff list \<times> bool" where
  "diffColumn oldCols newCols colName st =
     (case (mapGet oldCols colName, mapGet newCols colName) of
        (None, Some newCol) \<Rightarrow>
          (fst st @ [\<lparr> cd_name = colName, cd_action = Added, cd_oldType = None,
                       cd_newType = Some (displayType newCol), cd_changes = None \<rparr>], True)
      | (Some oldCol, None) \<Rightarrow>
          (fst st @ [\<lparr> cd_name = colName, cd_action = Removed,
                       cd_oldType = Some (displayType oldCol), cd_newType = None,
                       cd_changes = None \<rparr>], True)
      | (Some oldCol, Some newCol) \<Rightarrow>
          (let changes = columnChanges oldCol newCol
           in if length changes > 0
              then (fst st @ [\<lparr> cd_name = colName, cd_action = Modified,
                                cd_oldType = Some (displayType oldCol),
                                cd_newType = Some (displayType newCol),
                                cd_changes = Some changes \<rparr>], True)
              else (fst st @ [\<lparr> cd_name = colName, cd_action = Unchanged, cd_oldType = None,
                                cd_newType = None, cd_changes = None \<rparr>], snd st))
      | (None, None) \<Rightarrow> st)"

definition columnEntries :: "Table \<Rightarrow> (string \<times> Column) list" where
  "columnEntries t = map (\<lambda>c. (col_name c, c)) (tbl_columns t)"

text \<open>One round of the loop over \<open>allTableNames\<close>; the state is \<open>tableDiffs\<close>.\<close>

definition diffTable ::
  "(string \<times> Table) list \<Rightarrow> (string \<times> Table) list \<Rightarrow> string \<Rightarrow> TableDiff list \<Rightarrow> TableDiff list" where
  "diffTable oldTables newTables tableName tableDiffs =
     (case (mapGet oldTables tableName, mapGet newTables tableName) of
        (None, Some newTable) \<Rightarrow>
          tableDiffs @
          [\<lparr> td_name = tableName, td_action = Added,
             td_columnDiffs =
               map (\<lambda>c. \<lparr> cd_name = col_name c, cd_action = Added, cd_oldType = None,
                           cd_newType = Some (displayType c), cd_changes = None \<rparr>)
                   (tbl_columns newTable),
             td_changes = None \<rparr>]
      | (Some oldTable, None) \<Rightarrow>
          tableDiffs @
          [\<lparr> td_name = tableName, td_action = Removed,
             td_columnDiffs =
               map (\<lambda>c. \<lparr> cd_name = col_name c, cd_action = Removed,
                           cd_oldType = Some (displayType c), cd_newType = None,
                           cd_changes = None \<rparr>)
                   (tbl_columns oldTable),
             td_changes = None \<rparr>]
      | (Some oldTable, Some newTable) \<Rightarrow>
          (let oldCols = columnEntries oldTable;
               newCols = columnEntries newTable;
               allColNames = insertionOrder (mapKeys oldCols @ mapKeys newCols);
               (columnDiffs, tableModified) = fold (diffColumn oldCols newCols) allColNames ([], False)
           in tableDiffs @
              [\<lparr> td_name = tableName,
                 td_action = (if tableModified then Modified else Unchanged),
                 td_columnDiffs = columnDiffs, td_changes = None \<rparr>])
      | (None, None) \<Rightarrow> tableDiffs)"

definition relId :: "Relation \<Rightarrow> string" where
  "relId r = colKey (ref_table (rel_from r)) (ref_column (rel_from r)) @ ''->''
             @ colKey (ref_table (rel_to r)) (ref_column (rel_to r))"

definition diffRelation ::
  "(string \<times> Relation) list \<Rightarrow> (string \<times> Relation) list \<Rightarrow> string \<Rightarrow> RelationDiff list \<Rightarrow> RelationDiff list" where
  "diffRelation oldRels newRels ident relationDiffs =
     relationDiffs @
     [\<lparr> rd_id = ident,
        rd_action = (if mapGet oldRels ident = None \<and> mapGet newRels ident \<noteq> None then Added
                     else if mapGet oldRels ident \<noteq> None \<and> mapGet newRels ident = None then Removed
                     else Unchanged),
        rd_description = ident \<rparr>]"

definition tableEntries :: "DatabaseSchema \<Rightarrow> (string \<times> Table) list" where
  "tableEntries schema = map (\<lambda>t. (tbl_name t, t)) (ds_tables schema)"

definition diffSchemas :: "DatabaseSchema \<Rightarrow> DatabaseSchema \<Rightarrow> SchemaDiff" where
  "diffSchemas oldSchema newSchema =
     (let oldTables = tableEntries oldSchema;
          newTables = tableEntries newSchema;
          allTableNames = insertionOrder (mapKeys oldTables @ mapKeys newTables);
          tableDiffs = fold (diffTable oldTables newTables) allTableNames [];
          oldRels = map (\<lambda>r. (relId r, r)) (ds_relations oldSchema);
          newRels = map (\<lambda>r. (relId r, r)) (ds_relations newSchema);
          allRelIds = insertionOrder (mapKeys oldRels @ mapKeys newRels);
          relationDiffs = fold (diffRelation oldRels newRels) allRelIds []
      in \<lparr> sd_tables = tableDiffs, sd_relations = relationDiffs,
           sd_hasChanges = ((\<exists>t \<in> set tableDiffs. td_action t \<noteq> Unchanged)
                            \<or> (\<exists>r \<in> set relationDiffs. rd_action r \<noteq> Unchanged)) \<rparr>)"

text \<open>
  The tables that the diff compares under a name \<open>n\<close> present in both schemas, and the
  columns it compares under a name present in both tables: the last of that name.
\<close>

definition tableNamed :: "DatabaseSchema \<Rightarrow> string \<Rightarrow> Table option" where
  "tableNamed schema n = mapGet (tableEntries schema) n"

definition columnNamed :: "Table \<Rightarrow> string \<Rightarrow> Column option" where
  "columnNamed t c = mapGet (columnEntries t) c"

text \<open>What the claim calls a change of a column.\<close>

definition columnDiffers :: "Column \<Rightarrow> Column \<Rightarrow> bool" where
  "columnDiffers oldCol newCol \<longleftrightarrow>
     displayType oldCol \<noteq> displayType newCol
     \<or> cs_primaryKey (col_settings oldCol) \<noteq> cs_primaryKey (col_settings newCol)
     \<or> cs_notNull (col_settings oldCol) \<noteq> cs_notNull (col_settings newCol)"

text \<open>The entries that one round of the loops of \<open>diffSchemas\<close> pushes for a name.\<close>

definition columnDiffOf ::
  "(string \<times> Column) list \<Rightarrow> (string \<times> Column) list \<Rightarrow> string \<Rightarrow> ColumnDiff list" where
  "columnDiffOf oldCols newCols colName = fst (diffColumn oldCols newCols colName ([], False))"

definition tableDiffOf ::
  "(string \<times> Table) list \<Rightarrow> (string \<times> Table) list \<Rightarrow> string \<Rightarrow> TableDiff list" where
  "tableDiffOf oldTables newTables tableName = diffTable oldTables newTables tableName []"

text \<open>Two versions of a \<open>users\<close> table.\<close>

definition usersOld :: Table where
  "usersOld = sampleTable ''users''
     [sampleColumn ''id'' CT_int ''int'' (noSettings\<lparr>cs_primaryKey := Some True\<rparr>),
      sampleColumn ''email'' CT_varchar ''varchar'' noSettings]"

definition usersNew :: Table where
  "usersNew = sampleTable ''users''
     [sampleColumn ''id'' CT_int ''int''
        (noSettings\<lparr>cs_primaryKey := Some True, cs_unique := Some True,
                     cs_default := Some (DefNumber (Num 1)), cs_length := Some (Num 8)\<rparr>),
      sampleColumn ''email'' CT_text ''text'' noSettings]"

definition schemaOf :: "Table list \<Rightarrow> DatabaseSchema" where
  "schemaOf ts =
     \<lparr> ds_name = None, ds_tables = ts, ds_relations = [], ds_enums = [], ds_tableGroups = [],
       ds_note = None \<rparr>"


section \<open>Bounds are idempotent\<close>

lemma groupBounds_idem: "groupBounds ns pad (groupBounds ns pad grp) = groupBounds ns pad grp"
  by (simp add: groupBounds_def Let_def)

lemma computeGraphBounds_nodes: "gr_nodes (computeGraphBounds g p) = gr_nodes g"
  by (simp add: computeGraphBounds_def Let_def)

lemma computeGraphBounds_groups:
  "gr_groups (computeGraphBounds g p) = Some (computeGroupBounds g (Num 20))"
  by (simp add: computeGraphBounds_def Let_def)

lemma computeGroupBounds_again:
  "computeGroupBounds (computeGraphBounds g p) (Num 20) = computeGroupBounds g (Num 20)"
  by (simp add: computeGroupBounds_def computeGraphBounds_nodes computeGraphBounds_groups
      groupBounds_idem)

lemma computeGraphBounds_twice:
  "computeGraphBounds (computeGraphBounds g p) p = computeGraphBounds g p"
  unfolding computeGraphBounds_def [of "computeGraphBounds g p"]
  by (simp add: computeGroupBounds_again computeGraphBounds_nodes)
     (simp add: computeGraphBounds_def Let_def)

text \<open>
  C9. Applying \<open>computeGraphBounds\<close> a second time, with the same padding, to its own result
  yields the same graph bounds and the same groups (hence the same per-group bounds) as the
  first application.
\<close>

theorem computeGraphBounds_idempotent:
  "gr_bounds (computeGraphBounds (computeGraphBounds g p) p) = gr_bounds (computeGraphBounds g p)
   \<and> map g_bounds (computeGroupBounds (computeGraphBounds g p) (Num 20))
       = map g_bounds (computeGroupBounds g (Num 20))
   \<and> gr_groups (computeGraphBounds (computeGraphBounds g p) p) = gr_groups (computeGraphBounds g p)"
  by (simp add: computeGraphBounds_twice computeGroupBounds_again)

section \<open>Sums that do not round\<close>







section \<open>The grid layout separates the nodes when no sum rounds\<close>










section \<open>The validator reports both missing tables of a relation\<close>

lemma fold_checkTable_names:
  "vs_tableNames (fold (checkTable en) ts st) = vs_tableNames st \<union> set (map tbl_name ts)"
  by (induction ts arbitrary: st) (auto simp: checkTable_def Let_def)

lemma checkEndpoint_mono: "set errs \<subseteq> set (checkEndpoint tn tcm rel ep errs)"
  by (auto simp: checkEndpoint_def Let_def split: option.splits)

lemma checkRelation_mono: "set errs \<subseteq> set (checkRelation tn tcm rel errs)"
  unfolding checkRelation_def using checkEndpoint_mono by blast

lemma fold_checkRelation_mono: "set errs \<subseteq> set (fold (checkRelation tn tcm) rels errs)"
proof (induction rels arbitrary: errs)
  case Nil
  then show ?case by simp
next
  case (Cons r rs)
  show ?case
    using checkRelation_mono [of errs tn tcm r] Cons.IH [of "checkRelation tn tcm r errs"]
    by auto
qed

lemma checkGroup_mono: "set errs \<subseteq> set (checkGroup tn grp errs)"
proof -
  have "set errs \<subseteq> set (fold (\<lambda>tName errs.
             if tName \<notin> tn
             then errs @
                  [\<lparr> ve_type = SevWarning,
                     ve_message = ''TableGroup '' @ quoted g
                                  @ '' references unknown table '' @ quoted tName,
                     ve_location = None \<rparr>]
             else errs) ts errs)" for ts g
  proof (induction ts arbitrary: errs)
    case Nil
    then show ?case by simp
  next
    case (Cons t ts)
    show ?case
      using Cons.IH [of "errs"]
        Cons.IH [of "errs @ [\<lparr> ve_type = SevWarning,
                     ve_message = ''TableGroup '' @ quoted g
                                  @ '' references unknown table '' @ quoted t,
                     ve_location = None \<rparr>]"]
      by auto
  qed
  then show ?thesis by (simp add: checkGroup_def)
qed

lemma fold_checkGroup_mono: "set errs \<subseteq> set (fold (checkGroup tn) gs errs)"
proof (induction gs arbitrary: errs)
  case Nil
  then show ?case by simp
next
  case (Cons r rs)
  show ?case
    using checkGroup_mono [of errs tn r] Cons.IH [of "checkGroup tn r errs"]
    by auto
qed

lemma checkEndpoint_missing:
  "ref_table ep \<notin> tn \<Longrightarrow> missingTableError rel ep \<in> set (checkEndpoint tn tcm rel ep errs)"
  by (simp add: checkEndpoint_def missingTableError_def Let_def)

lemma fold_checkRelation_missing:
  assumes "rel \<in> set rels" "ref_table (rel_from rel) \<notin> tn" "ref_table (rel_to rel) \<notin> tn"
  shows "missingTableError rel (rel_from rel) \<in> set (fold (checkRelation tn tcm) rels errs)
       \<and> missingTableError rel (rel_to rel) \<in> set (fold (checkRelation tn tcm) rels errs)"
  using assms(1)
proof (induction rels arbitrary: errs)
  case Nil
  then show ?case by simp
next
  case (Cons r rs)
  show ?case
  proof (cases "r = rel")
    case True
    have "missingTableError rel (rel_from rel) \<in> set (checkRelation tn tcm rel errs)"
      unfolding checkRelation_def
      using checkEndpoint_missing [OF assms(2)] checkEndpoint_mono by blast
    moreover have "missingTableError rel (rel_to rel) \<in> set (checkRelation tn tcm rel errs)"
      unfolding checkRelation_def
      using checkEndpoint_missing [OF assms(3)] by blast
    ultimately show ?thesis
      using True fold_checkRelation_mono [of "checkRelation tn tcm rel errs" tn tcm rs]
      by auto
  next
    case False
    then have "rel \<in> set rs" using Cons.prems by simp
    from Cons.IH [OF this] show ?thesis by simp
  qed
qed

lemma mentions_missing: "mentions ''non-existent table'' (missingTableError rel ep)"
proof -
  have "ve_message (missingTableError rel ep)
          = ''Relation references '' @ ''non-existent table'' @ ('' '' @ quoted (ref_table ep))"
    by (simp add: missingTableError_def)
  then show ?thesis unfolding mentions_def sublist_def by blast
qed

text \<open>
  C4. If a relation of the schema names two different tables at its two ends and neither
  occurs among the schema's table names, then \<open>validateSchema\<close> returns two distinct entries
  of severity error whose messages contain "non-existent table", and \<open>valid\<close> is false.
\<close>

theorem validateSchema_two_missing_tables:
  assumes "rel \<in> set (ds_relations schema)"
    and "ref_table (rel_from rel) \<noteq> ref_table (rel_to rel)"
    and "ref_table (rel_from rel) \<notin> set (map tbl_name (ds_tables schema))"
    and "ref_table (rel_to rel) \<notin> set (map tbl_name (ds_tables schema))"
  shows "\<exists>e1 e2. e1 \<in> set (vr_errors (validateSchema schema))
            \<and> e2 \<in> set (vr_errors (validateSchema schema))
            \<and> e1 \<noteq> e2
            \<and> ve_type e1 = SevError \<and> ve_type e2 = SevError
            \<and> mentions ''non-existent table'' e1 \<and> mentions ''non-existent table'' e2
            \<and> vr_valid (validateSchema schema) = False"
proof -
  let ?e1 = "missingTableError rel (rel_from rel)" and ?e2 = "missingTableError rel (rel_to rel)"
  let ?st = "fold (checkTable (set (map enum_name (ds_enums schema)))) (ds_tables schema)
                 \<lparr> vs_errors = [], vs_tableNames = {}, vs_tableColumnMap = Map.empty \<rparr>"
  let ?errs1 = "fold (checkRelation (vs_tableNames ?st) (vs_tableColumnMap ?st))
                      (ds_relations schema) (vs_errors ?st)"
  have tn: "vs_tableNames ?st = set (map tbl_name (ds_tables schema))"
    by (simp add: fold_checkTable_names)
  have "?e1 \<in> set ?errs1 \<and> ?e2 \<in> set ?errs1"
    by (rule fold_checkRelation_missing [OF assms(1)]) (use assms(3,4) tn in simp_all)
  moreover have errs: "vr_errors (validateSchema schema)
      = fold (checkGroup (vs_tableNames ?st)) (ds_tableGroups schema) ?errs1"
    by (simp add: validateSchema_def Let_def)
  ultimately have in1: "?e1 \<in> set (vr_errors (validateSchema schema))"
    and in2: "?e2 \<in> set (vr_errors (validateSchema schema))"
    using fold_checkGroup_mono [of ?errs1 "vs_tableNames ?st" "ds_tableGroups schema"] by auto
  have ne: "?e1 \<noteq> ?e2" using assms(2) by (simp add: missingTableError_def quoted_def)
  have ty: "ve_type ?e1 = SevError" "ve_type ?e2 = SevError"
    by (simp_all add: missingTableError_def)
  have "filter (\<lambda>e. ve_type e = SevError) (vr_errors (validateSchema schema)) \<noteq> []"
    using in1 ty(1) by (auto simp: filter_empty_conv)
  then have "vr_valid (validateSchema schema) = False"
    by (simp add: validateSchema_def Let_def)
  with in1 in2 ne ty mentions_missing show ?thesis by blast
qed

theorem validateSchema_two_missing_tables_witness:
  "danglingRelation \<in> set (ds_relations danglingSchema)
   \<and> ref_table (rel_from danglingRelation) \<noteq> ref_table (rel_to danglingRelation)
   \<and> ref_table (rel_from danglingRelation) \<notin> set (map tbl_name (ds_tables danglingSchema))
   \<and> ref_table (rel_to danglingRelation) \<notin> set (map tbl_name (ds_tables danglingSchema))
   \<and> (\<exists>e1 e2. e1 \<in> set (vr_errors (validateSchema danglingSchema))
            \<and> e2 \<in> set (vr_errors (validateSchema danglingSchema))
            \<and> e1 \<noteq> e2
            \<and> ve_type e1 = SevError \<and> ve_type e2 = SevError
            \<and> mentions ''non-existent table'' e1 \<and> mentions ''non-existent table'' e2
            \<and> vr_valid (validateSchema danglingSchema) = False)"
proof -
  have a: "danglingRelation \<in> set (ds_relations danglingSchema)"
    by (simp add: danglingSchema_def)
  have b: "ref_table (rel_from danglingRelation) \<noteq> ref_table (rel_to danglingRelation)"
    by (simp add: danglingRelation_def sampleRelation_def)
  have c: "ref_table (rel_from danglingRelation) \<notin> set (map tbl_name (ds_tables danglingSchema))"
    and d: "ref_table (rel_to danglingRelation) \<notin> set (map tbl_name (ds_tables danglingSchema))"
    by (simp_all add: danglingSchema_def danglingRelation_def sampleRelation_def postsTable_def
        sampleTable_def)
  from validateSchema_two_missing_tables [OF a b c d] a b c d show ?thesis by blast
qed

lemma validateSchema_danglingSchema:
  "validateSchema danglingSchema =
     \<lparr> vr_valid = False,
       vr_errors = [missingTableError danglingRelation (rel_from danglingRelation),
                    missingTableError danglingRelation (rel_to danglingRelation)] \<rparr>"
  by (simp add: validateSchema_def danglingSchema_def danglingRelation_def postsTable_def
      sampleTable_def sampleColumn_def sampleRelation_def noSettings_def checkTable_def
      checkColumn_def checkRelation_def checkEndpoint_def checkGroup_def missingTableError_def
      Let_def)

section \<open>Nodes, edges and foreign-key marks of the built graph\<close>

lemma setGroupOfFirst_length: "length (setGroupOfFirst t g ns) = length ns"
  by (induction ns) auto

lemma setGroupOfFirst_columns: "map n_columns (setGroupOfFirst t g ns) = map n_columns ns"
  by (induction ns) auto

lemma setGroupOfFirst_ids: "map n_id (setGroupOfFirst t g ns) = map n_id ns"
  by (induction ns) auto

lemma applyGroup_columns: "map n_columns (applyGroup tg ns) = map n_columns ns"
proof -
  have "map n_columns (fold (\<lambda>tableName acc. setGroupOfFirst tableName g acc) ts ns) = map n_columns ns" for g ts
    by (induction ts arbitrary: ns) (auto simp: setGroupOfFirst_columns)
  then show ?thesis by (simp add: applyGroup_def)
qed

lemma applyGroup_ids: "map n_id (applyGroup tg ns) = map n_id ns"
proof -
  have "map n_id (fold (\<lambda>tableName acc. setGroupOfFirst tableName g acc) ts ns) = map n_id ns" for g ts
    by (induction ts arbitrary: ns) (auto simp: setGroupOfFirst_ids)
  then show ?thesis by (simp add: applyGroup_def)
qed

lemma fold_applyGroup_columns: "map n_columns (fold applyGroup tgs ns) = map n_columns ns"
  by (induction tgs arbitrary: ns) (auto simp: applyGroup_columns)

lemma fold_applyGroup_ids: "map n_id (fold applyGroup tgs ns) = map n_id ns"
  by (induction tgs arbitrary: ns) (auto simp: applyGroup_ids)

lemma buildGraph_node_ids: "map n_id (gr_nodes (buildGraph s)) = map tbl_name (ds_tables s)"
  by (simp add: buildGraph_def Let_def fold_applyGroup_ids buildTableNode_def o_def)

lemma buildGraph_node_columns:
  "map n_columns (gr_nodes (buildGraph s)) =
     map (\<lambda>t. buildColumnNodes (tbl_name t) (fkColumnsOf (ds_relations s)) headerHeight (tbl_columns t))
         (ds_tables s)"
  by (simp add: buildGraph_def Let_def fold_applyGroup_columns buildTableNode_def o_def)

lemma buildGraph_nodes_length: "length (gr_nodes (buildGraph s)) = length (ds_tables s)"
  using arg_cong [OF buildGraph_node_ids, of length s] by simp

lemma buildGraph_edges: "gr_edges (buildGraph s) = map buildEdge (ds_relations s)"
  by (simp add: buildGraph_def Let_def)

lemma buildColumnNodes_length: "length (buildColumnNodes t fk off cols) = length cols"
  by (induction cols arbitrary: off) auto

lemma buildColumnNodes_nth:
  "j < length cols \<Longrightarrow>
   \<exists>off'. buildColumnNodes t fk off cols ! j = buildColumnNode t (cols ! j) fk off'"
proof (induction cols arbitrary: off j)
  case Nil then show ?case by simp
next
  case (Cons c cs)
  show ?case
  proof (cases j)
    case 0 then show ?thesis by auto
  next
    case (Suc k)
    with Cons.prems have "k < length cs" by simp
    from Cons.IH [OF this, of "jsAdd off columnHeight"] Suc show ?thesis
      by auto
  qed
qed

lemma colKey_inject:
  assumes "colKey t1 c1 = colKey t2 c2" "CHR ''.'' \<notin> set t1" "CHR ''.'' \<notin> set t2"
  shows "t1 = t2 \<and> c1 = c2"
  using assms unfolding colKey_def
proof (induction t1 arbitrary: t2)
  case Nil
  then show ?case by (cases t2) auto
next
  case (Cons a t1)
  then show ?case by (cases t2) auto
qed

lemma buildGraph_isForeignKey:
  assumes "i < length (ds_tables s)" "j < length (tbl_columns (ds_tables s ! i))"
  shows "cn_isForeignKey (n_columns (gr_nodes (buildGraph s) ! i) ! j)
         \<longleftrightarrow> colKey (tbl_name (ds_tables s ! i)) (col_name (tbl_columns (ds_tables s ! i) ! j))
               \<in> fkColumnsOf (ds_relations s)"
proof -
  have "n_columns (gr_nodes (buildGraph s) ! i) = map n_columns (gr_nodes (buildGraph s)) ! i"
    using assms(1) by (simp add: buildGraph_nodes_length)
  also have "\<dots> = buildColumnNodes (tbl_name (ds_tables s ! i)) (fkColumnsOf (ds_relations s)) headerHeight (tbl_columns (ds_tables s ! i))"
    using assms(1) by (simp add: buildGraph_node_columns)
  finally have cols: "n_columns (gr_nodes (buildGraph s) ! i) = buildColumnNodes (tbl_name (ds_tables s ! i)) (fkColumnsOf (ds_relations s)) headerHeight (tbl_columns (ds_tables s ! i))" .
  from buildColumnNodes_nth [OF assms(2)] obtain off' where
    "buildColumnNodes (tbl_name (ds_tables s ! i)) (fkColumnsOf (ds_relations s)) headerHeight (tbl_columns (ds_tables s ! i)) ! j
       = buildColumnNode (tbl_name (ds_tables s ! i)) (tbl_columns (ds_tables s ! i) ! j) (fkColumnsOf (ds_relations s)) off'"
    by blast
  with cols show ?thesis by (simp add: buildColumnNode_def)
qed

text \<open>
  C3 (amended). A column node's \<open>isForeignKey\<close> is true iff the key \<open>`${table}.${column}`\<close>
  of its table and column equals the key of the \<open>from\<close> end of some relation of the schema.
  When neither the table's name nor the \<open>from\<close> table of any relation contains a dot, that is
  the case iff the pair (table name, column name) is the \<open>from\<close> end of some relation. The
  \<open>to\<close> ends of the relations play no part.
\<close>

theorem buildGraph_fk_marking:
  assumes "i < length (ds_tables s)" "j < length (tbl_columns (ds_tables s ! i))"
  shows "(cn_isForeignKey (n_columns (gr_nodes (buildGraph s) ! i) ! j)
          \<longleftrightarrow> (\<exists>rel \<in> set (ds_relations s).
                  colKey (ref_table (rel_from rel)) (ref_column (rel_from rel))
                  = colKey (tbl_name (ds_tables s ! i)) (col_name (tbl_columns (ds_tables s ! i) ! j))))
       \<and> (CHR ''.'' \<notin> set (tbl_name (ds_tables s ! i))
            \<and> (\<forall>rel \<in> set (ds_relations s). CHR ''.'' \<notin> set (ref_table (rel_from rel)))
          \<longrightarrow> (cn_isForeignKey (n_columns (gr_nodes (buildGraph s) ! i) ! j)
               \<longleftrightarrow> (\<exists>rel \<in> set (ds_relations s).
                      ref_table (rel_from rel) = tbl_name (ds_tables s ! i)
                      \<and> ref_column (rel_from rel) = col_name (tbl_columns (ds_tables s ! i) ! j))))"
proof -
  let ?t = "tbl_name (ds_tables s ! i)" and ?c = "col_name (tbl_columns (ds_tables s ! i) ! j)"
  have key: "cn_isForeignKey (n_columns (gr_nodes (buildGraph s) ! i) ! j)
          \<longleftrightarrow> (\<exists>rel \<in> set (ds_relations s).
                  colKey (ref_table (rel_from rel)) (ref_column (rel_from rel)) = colKey ?t ?c)"
    unfolding buildGraph_isForeignKey [OF assms] by (force simp: fkColumnsOf_def image_iff)
  have "(\<exists>rel \<in> set (ds_relations s).
                  colKey (ref_table (rel_from rel)) (ref_column (rel_from rel)) = colKey ?t ?c)
       \<longleftrightarrow> (\<exists>rel \<in> set (ds_relations s). ref_table (rel_from rel) = ?t \<and> ref_column (rel_from rel) = ?c)"
    if "CHR ''.'' \<notin> set ?t" "\<forall>rel \<in> set (ds_relations s). CHR ''.'' \<notin> set (ref_table (rel_from rel))"
    using that colKey_inject by metis
  with key show ?thesis by simp
qed

theorem buildGraph_fk_marking_witness:
  "(0::nat) < length (ds_tables blogSchema)
   \<and> (1::nat) < length (tbl_columns (ds_tables blogSchema ! 0))
   \<and> CHR ''.'' \<notin> set (tbl_name (ds_tables blogSchema ! 0))
   \<and> list_all (\<lambda>rel. CHR ''.'' \<notin> set (ref_table (rel_from rel))) (ds_relations blogSchema)
   \<and> col_name (tbl_columns (ds_tables blogSchema ! 0) ! 1) = ''author_id''
   \<and> cn_isForeignKey (n_columns (gr_nodes (buildGraph blogSchema) ! 0) ! 1)
   \<and> col_name (tbl_columns (ds_tables blogSchema ! 1) ! 0) = ''id''
   \<and> \<not> cn_isForeignKey (n_columns (gr_nodes (buildGraph blogSchema) ! 1) ! 0)"
proof -
  have i: "(0::nat) < length (ds_tables blogSchema)" and i': "(1::nat) < length (ds_tables blogSchema)"
    by (simp_all add: blogSchema_def)
  have j: "(1::nat) < length (tbl_columns (ds_tables blogSchema ! 0))"
    and j': "(0::nat) < length (tbl_columns (ds_tables blogSchema ! 1))"
    by (simp_all add: blogSchema_def postsTable_def usersTable_def sampleTable_def)
  have dots: "CHR ''.'' \<notin> set (tbl_name (ds_tables blogSchema ! 0))"
    "CHR ''.'' \<notin> set (tbl_name (ds_tables blogSchema ! 1))"
    "\<forall>rel \<in> set (ds_relations blogSchema). CHR ''.'' \<notin> set (ref_table (rel_from rel))"
    by (simp_all add: blogSchema_def postsTable_def usersTable_def sampleTable_def
        sampleRelation_def)
  have names: "col_name (tbl_columns (ds_tables blogSchema ! 0) ! 1) = ''author_id''"
    "col_name (tbl_columns (ds_tables blogSchema ! 1) ! 0) = ''id''"
    by (simp_all add: blogSchema_def postsTable_def usersTable_def sampleTable_def
        sampleColumn_def)
  have "cn_isForeignKey (n_columns (gr_nodes (buildGraph blogSchema) ! 0) ! 1)
          \<longleftrightarrow> (\<exists>rel \<in> set (ds_relations blogSchema).
                 ref_table (rel_from rel) = tbl_name (ds_tables blogSchema ! 0)
                 \<and> ref_column (rel_from rel) = col_name (tbl_columns (ds_tables blogSchema ! 0) ! 1))"
    using buildGraph_fk_marking [OF i j] dots(1,3) by blast
  moreover have "\<exists>rel \<in> set (ds_relations blogSchema).
                 ref_table (rel_from rel) = tbl_name (ds_tables blogSchema ! 0)
                 \<and> ref_column (rel_from rel) = col_name (tbl_columns (ds_tables blogSchema ! 0) ! 1)"
    by (simp add: blogSchema_def postsTable_def sampleTable_def sampleColumn_def
        sampleRelation_def)
  ultimately have fk: "cn_isForeignKey (n_columns (gr_nodes (buildGraph blogSchema) ! 0) ! 1)"
    by blast
  have "cn_isForeignKey (n_columns (gr_nodes (buildGraph blogSchema) ! 1) ! 0)
          \<longleftrightarrow> (\<exists>rel \<in> set (ds_relations blogSchema).
                 ref_table (rel_from rel) = tbl_name (ds_tables blogSchema ! 1)
                 \<and> ref_column (rel_from rel) = col_name (tbl_columns (ds_tables blogSchema ! 1) ! 0))"
    using buildGraph_fk_marking [OF i' j'] dots(2,3) by blast
  moreover have "\<not> (\<exists>rel \<in> set (ds_relations blogSchema).
                 ref_table (rel_from rel) = tbl_name (ds_tables blogSchema ! 1)
                 \<and> ref_column (rel_from rel) = col_name (tbl_columns (ds_tables blogSchema ! 1) ! 0))"
    by (simp add: blogSchema_def usersTable_def sampleTable_def sampleColumn_def
        sampleRelation_def)
  ultimately have nofk: "\<not> cn_isForeignKey (n_columns (gr_nodes (buildGraph blogSchema) ! 1) ! 0)"
    by blast
  from i j dots names fk nofk show ?thesis by (simp add: list_all_iff)
qed

text \<open>
  The claim as stated fails where names contain dots: the column \<open>c\<close> of table \<open>a.b\<close> is
  marked although the only relation starts at column \<open>b.c\<close> of table \<open>a\<close>.
\<close>

theorem buildGraph_fk_marking_counterexample:
  "cn_isForeignKey (n_columns (gr_nodes (buildGraph dottedSchema) ! 0) ! 0)
   \<and> \<not> (\<exists>rel \<in> set (ds_relations dottedSchema).
          ref_table (rel_from rel) = tbl_name (ds_tables dottedSchema ! 0)
          \<and> ref_column (rel_from rel) = col_name (tbl_columns (ds_tables dottedSchema ! 0) ! 0))"
  by (simp add: buildGraph_def dottedSchema_def sampleTable_def sampleColumn_def
      sampleRelation_def buildTableNode_def buildColumnNode_def fkColumnsOf_def colKey_def
      Let_def)

section \<open>The lexer is total\<close>

lemma skip_unrecognized:
  assumes "lx_pos lx < length input" "unrecognized (input ! lx_pos lx) (peek input lx)"
  shows "skipWhitespaceAndComments input lx = lx"
  using assms
  by (subst skipWhitespaceAndComments.simps) (auto simp: unrecognized_def Let_def)

lemma scanToken_unrecognized:
  assumes "unrecognized (input ! lx_pos lx) (peek input lx)"
  shows "scanToken input lx = advance (push (makeToken UNKNOWN [input ! lx_pos lx] lx) lx)"
  using assms
  by (auto simp: scanToken_def scanPunctuation_def unrecognized_def Let_def)

text \<open>
  C5. \<open>tokenize\<close> is a total function of the input (the model has no branch that throws, and
  every loop of the lexer is shown to terminate); the list it returns ends with an \<open>EOF\<close>
  token of empty text; and wherever the scanning loop stands at a character that is
  recognised as none of whitespace, comment, newline, string, number, identifier or keyword,
  punctuation or relation operator, it appends an \<open>UNKNOWN\<close> token holding that character
  and goes on with the next character.
\<close>

theorem tokenize_total_unknown_eof:
  "(\<exists>ts l c. tokenize input = ts @ [\<lparr> tok_type = EOF, tok_value = [], tok_line = l, tok_column = c \<rparr>])
   \<and> (\<forall>lx. lx_pos lx < length input \<and> unrecognized (input ! lx_pos lx) (peek input lx)
          \<longrightarrow> tokenizeLoop input lx
              = tokenizeLoop input (advance (push (makeToken UNKNOWN [input ! lx_pos lx] lx) lx)))"
proof (intro conjI allI impI)
  show "\<exists>ts l c. tokenize input = ts @ [\<lparr> tok_type = EOF, tok_value = [], tok_line = l, tok_column = c \<rparr>]"
    by (simp add: tokenize_def push_def makeToken_def Let_def)
next
  fix lx
  assume a: "lx_pos lx < length input \<and> unrecognized (input ! lx_pos lx) (peek input lx)"
  then have "tokenizeLoop input lx = tokenizeLoop input (scanToken input lx)"
    by (subst tokenizeLoop.simps) (simp add: skip_unrecognized Let_def)
  with a show "tokenizeLoop input lx
      = tokenizeLoop input (advance (push (makeToken UNKNOWN [input ! lx_pos lx] lx) lx))"
    by (simp add: scanToken_unrecognized)
qed

theorem tokenize_total_unknown_eof_witness:
  "lx_pos \<lparr> lx_pos = 2, lx_line = 1, lx_column = 3, lx_tokens = [] \<rparr> < length ''a @ b''
   \<and> unrecognized (''a @ b'' ! 2) (peek ''a @ b'' \<lparr> lx_pos = 2, lx_line = 1, lx_column = 3, lx_tokens = [] \<rparr>)
   \<and> tokenizeLoop ''a @ b'' \<lparr> lx_pos = 2, lx_line = 1, lx_column = 3, lx_tokens = [] \<rparr>
       = tokenizeLoop ''a @ b''
           \<lparr> lx_pos = 3, lx_line = 1, lx_column = 4,
             lx_tokens = [\<lparr> tok_type = UNKNOWN, tok_value = ''@'', tok_line = 1, tok_column = 3 \<rparr>] \<rparr>
   \<and> tokenize ''a @ b'' =
       [\<lparr> tok_type = IDENTIFIER, tok_value = ''a'', tok_line = 1, tok_column = 1 \<rparr>,
        \<lparr> tok_type = UNKNOWN, tok_value = ''@'', tok_line = 1, tok_column = 3 \<rparr>,
        \<lparr> tok_type = IDENTIFIER, tok_value = ''b'', tok_line = 1, tok_column = 5 \<rparr>,
        \<lparr> tok_type = EOF, tok_value = [], tok_line = 1, tok_column = 6 \<rparr>]"
proof -
  let ?lx = "\<lparr> lx_pos = 2, lx_line = 1, lx_column = 3, lx_tokens = [] \<rparr>"
  have h: "lx_pos ?lx < length ''a @ b'' \<and> unrecognized (''a @ b'' ! lx_pos ?lx) (peek ''a @ b'' ?lx)"
    by (simp add: unrecognized_def peek_def isDigit_def isAlpha_def newline_def)
  from tokenize_total_unknown_eof [of "''a @ b''"] h
  have "tokenizeLoop ''a @ b'' ?lx
      = tokenizeLoop ''a @ b'' (advance (push (makeToken UNKNOWN [''a @ b'' ! lx_pos ?lx] ?lx) ?lx))"
    by blast
  moreover have "tokenize ''a @ b'' =
       [\<lparr> tok_type = IDENTIFIER, tok_value = ''a'', tok_line = 1, tok_column = 1 \<rparr>,
        \<lparr> tok_type = UNKNOWN, tok_value = ''@'', tok_line = 1, tok_column = 3 \<rparr>,
        \<lparr> tok_type = IDENTIFIER, tok_value = ''b'', tok_line = 1, tok_column = 5 \<rparr>,
        \<lparr> tok_type = EOF, tok_value = [], tok_line = 1, tok_column = 6 \<rparr>]"
    by (simp add: lexer_eval)
  ultimately show ?thesis using h by (simp add: advance_def push_def makeToken_def)
qed

section \<open>Number tokens\<close>

text \<open>
  C6. The claim that every \<open>NUMBER\<close> token matches \<open>[0-9]+(\.[0-9]+)?\<close> fails: \<open>readNumber\<close>
  takes every run of digits and dots that starts with a digit, so the input \<open>1.2.3\<close> is one
  \<open>NUMBER\<close> token with two dots, and the input \<open>1.\<close> one that ends in a dot.
\<close>

theorem readNumber_accepts_dots:
  "tokenize ''1.2.3'' =
     [\<lparr> tok_type = NUMBER, tok_value = ''1.2.3'', tok_line = 1, tok_column = 1 \<rparr>,
      \<lparr> tok_type = EOF, tok_value = [], tok_line = 1, tok_column = 6 \<rparr>]
   \<and> matchesNumber ''1.2.3'' = False
   \<and> tokenize ''1.'' =
     [\<lparr> tok_type = NUMBER, tok_value = ''1.'', tok_line = 1, tok_column = 1 \<rparr>,
      \<lparr> tok_type = EOF, tok_value = [], tok_line = 1, tok_column = 3 \<rparr>]
   \<and> matchesNumber ''1.'' = False
   \<and> matchesNumber ''45.67'' = True"
  by (simp add: lexer_eval matchesNumber_def)

section \<open>Parsing the sample inputs\<close>

lemma tokenize_unterminatedInput:
  "tokenize unterminatedInput =
     [\<lparr> tok_type = TABLE, tok_value = ''Table'', tok_line = 1, tok_column = 1 \<rparr>,
      \<lparr> tok_type = IDENTIFIER, tok_value = ''users'', tok_line = 1, tok_column = 7 \<rparr>,
      \<lparr> tok_type = LBRACE, tok_value = ''{'', tok_line = 1, tok_column = 13 \<rparr>,
      \<lparr> tok_type = NEWLINE, tok_value = [CHR 0x0A], tok_line = 1, tok_column = 14 \<rparr>,
      \<lparr> tok_type = IDENTIFIER, tok_value = ''id'', tok_line = 2, tok_column = 3 \<rparr>,
      \<lparr> tok_type = IDENTIFIER, tok_value = ''int'', tok_line = 2, tok_column = 6 \<rparr>,
      \<lparr> tok_type = LBRACKET, tok_value = ''['', tok_line = 2, tok_column = 10 \<rparr>,
      \<lparr> tok_type = IDENTIFIER, tok_value = ''pk'', tok_line = 2, tok_column = 11 \<rparr>,
      \<lparr> tok_type = NEWLINE, tok_value = [CHR 0x0A], tok_line = 2, tok_column = 13 \<rparr>,
      \<lparr> tok_type = RBRACE, tok_value = ''}'', tok_line = 3, tok_column = 1 \<rparr>,
      \<lparr> tok_type = EOF, tok_value = [], tok_line = 3, tok_column = 2 \<rparr>]"
  by (simp add: unterminatedInput_def lexer_eval)

lemma tokenize_refInput:
  "tokenize refInput =
     [\<lparr> tok_type = REF, tok_value = ''Ref'', tok_line = 1, tok_column = 1 \<rparr>,
      \<lparr> tok_type = COLON, tok_value = '':'', tok_line = 1, tok_column = 4 \<rparr>,
      \<lparr> tok_type = IDENTIFIER, tok_value = ''a'', tok_line = 1, tok_column = 6 \<rparr>,
      \<lparr> tok_type = DOT, tok_value = ''.'', tok_line = 1, tok_column = 7 \<rparr>,
      \<lparr> tok_type = IDENTIFIER, tok_value = ''b'', tok_line = 1, tok_column = 8 \<rparr>,
      \<lparr> tok_type = IDENTIFIER, tok_value = ''x'', tok_line = 1, tok_column = 10 \<rparr>,
      \<lparr> tok_type = IDENTIFIER, tok_value = ''c'', tok_line = 1, tok_column = 12 \<rparr>,
      \<lparr> tok_type = DOT, tok_value = ''.'', tok_line = 1, tok_column = 13 \<rparr>,
      \<lparr> tok_type = IDENTIFIER, tok_value = ''d'', tok_line = 1, tok_column = 14 \<rparr>,
      \<lparr> tok_type = EOF, tok_value = [], tok_line = 1, tok_column = 15 \<rparr>]"
  by (simp add: refInput_def lexer_eval)

lemma tokenize_blogInput:
  "tokenize blogInput =
     [\<lparr> tok_type = TABLE, tok_value = ''Table'', tok_line = 1, tok_column = 1 \<rparr>,
      \<lparr> tok_type = IDENTIFIER, tok_value = ''posts'', tok_line = 1, tok_column = 7 \<rparr>,
      \<lparr> tok_type = LBRACE, tok_value = ''{'', tok_line = 1, tok_column = 13 \<rparr>,
      \<lparr> tok_type = IDENTIFIER, tok_value = ''id'', tok_line = 1, tok_column = 15 \<rparr>,
      \<lparr> tok_type = IDENTIFIER, tok_value = ''int'', tok_line = 1, tok_column = 18 \<rparr>,
      \<lparr> tok_type = LBRACKET, tok_value = ''['', tok_line = 1, tok_column = 22 \<rparr>,
      \<lparr> tok_type = IDENTIFIER, tok_value = ''pk'', tok_line = 1, tok_column = 23 \<rparr>,
      \<lparr> tok_type = RBRACKET, tok_value = '']'', tok_line = 1, tok_column = 25 \<rparr>,
      \<lparr> tok_type = IDENTIFIER, tok_value = ''author_id'', tok_line = 1, tok_column = 27 \<rparr>,
      \<lparr> tok_type = IDENTIFIER, tok_value = ''int'', tok_line = 1, tok_column = 37 \<rparr>,
      \<lparr> tok_type = RBRACE, tok_value = ''}'', tok_line = 1, tok_column = 41 \<rparr>,
      \<lparr> tok_type = NEWLINE, tok_value = [CHR 0x0A], tok_line = 1, tok_column = 42 \<rparr>,
      \<lparr> tok_type = TABLE, tok_value = ''Table'', tok_line = 2, tok_column = 1 \<rparr>,
      \<lparr> tok_type = IDENTIFIER, tok_value = ''users'', tok_line = 2, tok_column = 7 \<rparr>,
      \<lparr> tok_type = LBRACE, tok_value = ''{'', tok_line = 2, tok_column = 13 \<rparr>,
      \<lparr> tok_type = IDENTIFIER, tok_value = ''id'', tok_line = 2, tok_column = 15 \<rparr>,
      \<lparr> tok_type = IDENTIFIER, tok_value = ''int'', tok_line = 2, tok_column = 18 \<rparr>,
      \<lparr> tok_type = LBRACKET, tok_value = ''['', tok_line = 2, tok_column = 22 \<rparr>,
      \<lparr> tok_type = IDENTIFIER, tok_value = ''pk'', tok_line = 2, tok_column = 23 \<rparr>,
      \<lparr> tok_type = RBRACKET, tok_value = '']'', tok_line = 2, tok_column = 25 \<rparr>,
      \<lparr> tok_type = RBRACE, tok_value = ''}'', tok_line = 2, tok_column = 27 \<rparr>,
      \<lparr> tok_type = NEWLINE, tok_value = [CHR 0x0A], tok_line = 2, tok_column = 28 \<rparr>,
      \<lparr> tok_type = REF, tok_value = ''Ref'', tok_line = 3, tok_column = 1 \<rparr>,
      \<lparr> tok_type = COLON, tok_value = '':'', tok_line = 3, tok_column = 4 \<rparr>,
      \<lparr> tok_type = IDENTIFIER, tok_value = ''posts'', tok_line = 3, tok_column = 6 \<rparr>,
      \<lparr> tok_type = DOT, tok_value = ''.'', tok_line = 3, tok_column = 11 \<rparr>,
      \<lparr> tok_type = IDENTIFIER, tok_value = ''author_id'', tok_line = 3, tok_column = 12 \<rparr>,
      \<lparr> tok_type = REL_MANY_TO_ONE, tok_value = ''>'', tok_line = 3, tok_column = 22 \<rparr>,
      \<lparr> tok_type = IDENTIFIER, tok_value = ''users'', tok_line = 3, tok_column = 24 \<rparr>,
      \<lparr> tok_type = DOT, tok_value = ''.'', tok_line = 3, tok_column = 29 \<rparr>,
      \<lparr> tok_type = IDENTIFIER, tok_value = ''id'', tok_line = 3, tok_column = 30 \<rparr>,
      \<lparr> tok_type = EOF, tok_value = [], tok_line = 3, tok_column = 32 \<rparr>]"
  by (simp add: blogInput_def lexer_eval)

lemma tokenize_swallowInput:
  "tokenize swallowInput =
     [\<lparr> tok_type = TABLE, tok_value = ''Table'', tok_line = 1, tok_column = 1 \<rparr>,
      \<lparr> tok_type = IDENTIFIER, tok_value = ''a'', tok_line = 1, tok_column = 7 \<rparr>,
      \<lparr> tok_type = LBRACE, tok_value = ''{'', tok_line = 1, tok_column = 9 \<rparr>,
      \<lparr> tok_type = NEWLINE, tok_value = [CHR 0x0A], tok_line = 1, tok_column = 10 \<rparr>,
      \<lparr> tok_type = IDENTIFIER, tok_value = ''id'', tok_line = 2, tok_column = 3 \<rparr>,
      \<lparr> tok_type = IDENTIFIER, tok_value = ''int'', tok_line = 2, tok_column = 6 \<rparr>,
      \<lparr> tok_type = LBRACKET, tok_value = ''['', tok_line = 2, tok_column = 10 \<rparr>,
      \<lparr> tok_type = IDENTIFIER, tok_value = ''pk'', tok_line = 2, tok_column = 11 \<rparr>,
      \<lparr> tok_type = NEWLINE, tok_value = [CHR 0x0A], tok_line = 2, tok_column = 13 \<rparr>,
      \<lparr> tok_type = REF, tok_value = ''Ref'', tok_line = 3, tok_column = 1 \<rparr>,
      \<lparr> tok_type = COLON, tok_value = '':'', tok_line = 3, tok_column = 4 \<rparr>,
      \<lparr> tok_type = IDENTIFIER, tok_value = ''a'', tok_line = 3, tok_column = 6 \<rparr>,
      \<lparr> tok_type = DOT, tok_value = ''.'', tok_line = 3, tok_column = 7 \<rparr>,
      \<lparr> tok_type = IDENTIFIER, tok_value = ''id'', tok_line = 3, tok_column = 8 \<rparr>,
      \<lparr> tok_type = REL_MANY_TO_ONE, tok_value = ''>'', tok_line = 3, tok_column = 11 \<rparr>,
      \<lparr> tok_type = IDENTIFIER, tok_value = ''b'', tok_line = 3, tok_column = 13 \<rparr>,
      \<lparr> tok_type = DOT, tok_value = ''.'', tok_line = 3, tok_column = 14 \<rparr>,
      \<lparr> tok_type = IDENTIFIER, tok_value = ''y'', tok_line = 3, tok_column = 15 \<rparr>,
      \<lparr> tok_type = NEWLINE, tok_value = [CHR 0x0A], tok_line = 3, tok_column = 16 \<rparr>,
      \<lparr> tok_type = TABLE, tok_value = ''Table'', tok_line = 4, tok_column = 1 \<rparr>,
      \<lparr> tok_type = IDENTIFIER, tok_value = ''b'', tok_line = 4, tok_column = 7 \<rparr>,
      \<lparr> tok_type = LBRACE, tok_value = ''{'', tok_line = 4, tok_column = 9 \<rparr>,
      \<lparr> tok_type = NEWLINE, tok_value = [CHR 0x0A], tok_line = 4, tok_column = 10 \<rparr>,
      \<lparr> tok_type = IDENTIFIER, tok_value = ''y'', tok_line = 5, tok_column = 3 \<rparr>,
      \<lparr> tok_type = IDENTIFIER, tok_value = ''int'', tok_line = 5, tok_column = 5 \<rparr>,
      \<lparr> tok_type = LBRACKET, tok_value = ''['', tok_line = 5, tok_column = 9 \<rparr>,
      \<lparr> tok_type = IDENTIFIER, tok_value = ''pk'', tok_line = 5, tok_column = 10 \<rparr>,
      \<lparr> tok_type = RBRACKET, tok_value = '']'', tok_line = 5, tok_column = 12 \<rparr>,
      \<lparr> tok_type = NEWLINE, tok_value = [CHR 0x0A], tok_line = 5, tok_column = 13 \<rparr>,
      \<lparr> tok_type = RBRACE, tok_value = ''}'', tok_line = 6, tok_column = 1 \<rparr>,
      \<lparr> tok_type = EOF, tok_value = [], tok_line = 6, tok_column = 2 \<rparr>]"
  by (simp add: swallowInput_def lexer_eval)

section \<open>Where the error of an unclosed settings bracket is reported\<close>

text \<open>
  C7 (amended). \<open>parseDSL\<close> applied to \<open>"Table users {\n  id int [pk\n}"\<close> throws a
  \<open>ParserError\<close> whose \<open>line\<close> field equals 3: the loop over the settings takes every token
  up to \<open>EOF\<close>, the closing brace on line 3 included, and \<open>expect('RBRACKET')\<close> then fails
  at the \<open>EOF\<close> token, which stands at line 3, column 2.
\<close>

theorem parseDSL_unterminated_bracket:
  "parseDSL unterminatedInput =
     Some (Inl (ParserError (''Expected RBRACKET but got EOF ('' @ quoted [] @ '')'') 3 2 (Some [])))"
  by (simp add: tokenize_unterminatedInput parser_eval)

text \<open>The error is not reported at line 2.\<close>

theorem parseDSL_unterminated_bracket_counterexample:
  "\<not> (\<exists>msg col v. parseDSL unterminatedInput = Some (Inl (ParserError msg 2 col v)))"
  by (simp add: tokenize_unterminatedInput parser_eval)

section \<open>The operator of a relation\<close>

text \<open>
  C10. \<open>parseRelationType\<close> takes the one token at the operator's place whatever it is: at
  any position inside the token list it returns without a \<open>ParserError\<close> and moves one token
  on, and when the token is none of the four relation operators the type is
  \<open>one-to-many\<close>. So \<open>parseDSL("Ref: a.b x c.d")\<close> returns a schema with the one relation
  \<open>a.b\<close> to \<open>c.d\<close> of type \<open>one-to-many\<close>.
\<close>

theorem parseRelationType_lenient:
  "(\<forall>ts pos. pos < length ts \<longrightarrow>
      (\<exists>ty. parseRelationType ts pos = Inr (ty, pos + 1))
      \<and> (tok_type (ts ! pos) \<notin> {REL_ONE_TO_ONE, REL_ONE_TO_MANY, REL_MANY_TO_ONE, REL_MANY_TO_MANY}
           \<longrightarrow> parseRelationType ts pos = Inr (OneToMany, pos + 1)))
   \<and> parseDSL refInput =
       Some (Inr \<lparr> ds_name = None, ds_tables = [],
                   ds_relations = [\<lparr> rel_name = None,
                                     rel_from = \<lparr> ref_table = ''a'', ref_column = ''b'' \<rparr>,
                                     rel_to = \<lparr> ref_table = ''c'', ref_column = ''d'' \<rparr>,
                                     rel_type = OneToMany, rel_note = None \<rparr>],
                   ds_enums = [], ds_tableGroups = [], ds_note = None \<rparr>)"
proof (intro conjI allI impI)
  fix ts :: "Token list" and pos
  assume "pos < length ts"
  then show "\<exists>ty. parseRelationType ts pos = Inr (ty, pos + 1)"
    by (simp add: parseRelationType_def parserCurrent_def)
next
  fix ts :: "Token list" and pos
  assume "pos < length ts"
    and "tok_type (ts ! pos) \<notin> {REL_ONE_TO_ONE, REL_ONE_TO_MANY, REL_MANY_TO_ONE, REL_MANY_TO_MANY}"
  then show "parseRelationType ts pos = Inr (OneToMany, pos + 1)"
    by (simp add: parseRelationType_def parserCurrent_def relationTypeOf_def)
next
  show "parseDSL refInput =
       Some (Inr \<lparr> ds_name = None, ds_tables = [],
                   ds_relations = [\<lparr> rel_name = None,
                                     rel_from = \<lparr> ref_table = ''a'', ref_column = ''b'' \<rparr>,
                                     rel_to = \<lparr> ref_table = ''c'', ref_column = ''d'' \<rparr>,
                                     rel_type = OneToMany, rel_note = None \<rparr>],
                   ds_enums = [], ds_tableGroups = [], ds_note = None \<rparr>)"
    by (simp add: tokenize_refInput parser_eval)
qed

theorem parseRelationType_lenient_witness:
  "(5::nat) < length (tokenize refInput)
   \<and> tokenize refInput ! 5 = \<lparr> tok_type = IDENTIFIER, tok_value = ''x'', tok_line = 1, tok_column = 10 \<rparr>
   \<and> tok_type (tokenize refInput ! 5) \<notin> {REL_ONE_TO_ONE, REL_ONE_TO_MANY, REL_MANY_TO_ONE, REL_MANY_TO_MANY}
   \<and> parseRelationType (tokenize refInput) 5 = Inr (OneToMany, 6)"
proof -
  have a: "(5::nat) < length (tokenize refInput)"
    and b: "tokenize refInput ! 5 = \<lparr> tok_type = IDENTIFIER, tok_value = ''x'', tok_line = 1, tok_column = 10 \<rparr>"
    by (simp_all add: tokenize_refInput)
  have c: "tok_type (tokenize refInput ! 5) \<notin> {REL_ONE_TO_ONE, REL_ONE_TO_MANY, REL_MANY_TO_ONE, REL_MANY_TO_MANY}"
    by (simp add: b)
  from parseRelationType_lenient a c
  have "parseRelationType (tokenize refInput) 5 = Inr (OneToMany, 5 + 1)" by blast
  with a b c show ?thesis by simp
qed

section \<open>One node per table, one edge per relation\<close>

subsection \<open>Every statement takes at least one token\<close>

lemma columnSettingsLoop_mono: "columnSettingsLoop ts pos s = Inr (s', p) \<Longrightarrow> pos \<le> p"
proof (induction ts pos s rule: columnSettingsLoop.induct)
  case (1 ts pos settings)
  show ?case
  proof (cases "\<not> check ts pos RBRACKET \<and> \<not> isAtEnd ts pos")
    case True
    with "1.prems" obtain s1 p1 where st: "columnSetting ts pos settings = Inr (s1, p1)"
      and rest: "columnSettingsLoop ts p1 s1 = Inr (s', p)"
      by (subst (asm) columnSettingsLoop.simps) (auto split: sum.splits)
    from "1.IH" [OF True st refl rest] columnSetting_progress [OF st]
    show ?thesis by simp
  next
    case False
    with "1.prems" show ?thesis by (subst (asm) columnSettingsLoop.simps) auto
  qed
qed

lemma parseTypeArguments_mono: "parseTypeArguments ts pos = Inr (r, p) \<Longrightarrow> pos \<le> p"
  by (auto simp: parseTypeArguments_def Let_def split: if_splits dest!: bindP_Inr expect_pos)

lemma parseColumn_progress: "parseColumn ts pos = Inr (c, p) \<Longrightarrow> pos < p"
  unfolding parseColumn_def
  by (auto simp: Let_def split: if_splits prod.splits
      dest!: bindP_Inr expect_pos columnSettingsLoop_mono parseTypeArguments_mono)

lemma parseNote_progress: "parseNote ts pos = Inr (c, p) \<Longrightarrow> pos < p"
  unfolding parseNote_def
  by (auto split: if_splits dest!: bindP_Inr expect_pos)

lemma indexColumnsLoop_mono: "indexColumnsLoop ts pos cols = Inr (cols', p) \<Longrightarrow> pos \<le> p"
proof (induction ts pos cols rule: indexColumnsLoop.induct)
  case (1 ts pos cols)
  show ?case
  proof (cases "\<not> check ts pos RPAREN \<and> \<not> isAtEnd ts pos")
    case True
    with "1.prems" obtain t p1 where st: "expect ts pos IDENTIFIER = Inr (t, p1)"
      and rest: "indexColumnsLoop ts (if check ts p1 COMMA then p1 + 1 else p1) (cols @ [tok_value t]) = Inr (cols', p)"
      by (subst (asm) indexColumnsLoop.simps) (auto split: sum.splits)
    from "1.IH" [OF True st refl rest] expect_pos [OF st]
    show ?thesis by (auto split: if_splits)
  next
    case False
    with "1.prems" show ?thesis by (subst (asm) indexColumnsLoop.simps) auto
  qed
qed

lemma indexSettingsLoop_mono: "indexSettingsLoop ts pos idx = Inr (idx', p) \<Longrightarrow> pos \<le> p"
proof (induction ts pos idx rule: indexSettingsLoop.induct)
  case (1 ts pos idx)
  show ?case
  proof (cases "\<not> check ts pos RBRACKET \<and> \<not> isAtEnd ts pos")
    case True
    with "1.prems" obtain s1 p1 where st: "indexSetting ts pos idx = Inr (s1, p1)"
      and rest: "indexSettingsLoop ts p1 s1 = Inr (idx', p)"
      by (subst (asm) indexSettingsLoop.simps) (auto split: sum.splits)
    from "1.IH" [OF True st refl rest] indexSetting_progress [OF st]
    show ?thesis by simp
  next
    case False
    with "1.prems" show ?thesis by (subst (asm) indexSettingsLoop.simps) auto
  qed
qed

lemma parseIndex_mono: "parseIndex ts pos = Inr (idx, p) \<Longrightarrow> pos \<le> p"
  unfolding parseIndex_def
  by (auto simp: Let_def split: if_splits
      dest!: bindP_Inr expect_pos indexColumnsLoop_mono indexSettingsLoop_mono)

lemma parseIndexesLoop_mono:
  assumes "parseIndexesLoop ts pos table = Some (Inr (table', p))"
  shows "pos \<le> p"
proof -
  have "\<forall>table' p. Inr (table', p) = r \<longrightarrow> pos \<le> p" if "parseIndexesLoop ts pos table = Some r" for r
  proof (rule parseIndexesLoop.raw_induct
      [where P = "\<lambda>ts pos table r. \<forall>table' p. Inr (table', p) = r \<longrightarrow> pos \<le> p", OF _ that],
      goal_cases)
    case (1 loop ts pos table r)
    show ?case
    proof (cases "\<not> check ts pos RBRACE \<and> \<not> isAtEnd ts pos")
      case True
      show ?thesis
      proof (cases "parseIndex ts pos")
        case (Inl e)
        with True 1(2) show ?thesis by auto
      next
        case (Inr a)
        then obtain idx p1 where st: "parseIndex ts pos = Inr (idx, p1)" by (cases a) auto
        with True 1(2)
        have rest: "loop ts (skipNewlines ts p1) (table\<lparr>tbl_indexes := tbl_indexes table @ [idx]\<rparr>) = Some r"
          by simp
        from 1(1) [OF rest] parseIndex_mono [OF st] skipNewlines_pos [of p1 ts]
        show ?thesis by auto
      qed
    next
      case False
      with 1(2) show ?thesis by auto
    qed
  qed
  with assms show ?thesis by blast
qed

lemma parseIndexes_progress:
  assumes "parseIndexes ts pos table = Some (Inr (table', p))"
  shows "pos < p"
proof -
  from assms obtain x p2 r where hd: "bindP (expect ts pos INDEXES) (\<lambda>_ p1. expect ts p1 LBRACE) = Inr (x, p2)"
    and loop: "parseIndexesLoop ts (skipNewlines ts p2) table = Some r"
    and tl: "bindP r (\<lambda>table' p3. bindP (expect ts p3 RBRACE) (\<lambda>_ p4. Inr (table', p4))) = Inr (table', p)"
    by (auto simp: parseIndexes_def split: sum.splits option.splits)
  from hd have "pos < p2" by (auto dest!: bindP_Inr expect_pos)
  moreover from tl obtain t3 p3 where r: "r = Inr (t3, p3)" and "p3 \<le> p"
    by (auto dest!: bindP_Inr expect_pos)
  moreover from loop r have "skipNewlines ts p2 \<le> p3" by (auto dest: parseIndexesLoop_mono)
  moreover have "p2 \<le> skipNewlines ts p2" by (rule skipNewlines_pos)
  ultimately show ?thesis by simp
qed

lemma tableItem_progress:
  assumes "tableItem ts pos table = Some (Inr (table', p))"
  shows "pos < p"
  using assms
  by (auto simp: tableItem_def split: if_splits
      dest!: bindP_Inr parseIndexes_progress parseNote_progress parseColumn_progress)

lemma parseTableLoop_mono:
  assumes "parseTableLoop ts pos table = Some (Inr (table', p))"
  shows "pos \<le> p"
proof -
  have "\<forall>table' p. Inr (table', p) = r \<longrightarrow> pos \<le> p" if "parseTableLoop ts pos table = Some r" for r
  proof (rule parseTableLoop.raw_induct
      [where P = "\<lambda>ts pos table r. \<forall>table' p. Inr (table', p) = r \<longrightarrow> pos \<le> p", OF _ that],
      goal_cases)
    case (1 loop ts pos table r)
    show ?case
    proof (cases "\<not> check ts pos RBRACE \<and> \<not> isAtEnd ts pos")
      case True
      show ?thesis
      proof (cases "tableItem ts pos table")
        case None
        with True 1(2) show ?thesis by auto
      next
        case (Some a)
        show ?thesis
        proof (cases a)
          case (Inl e)
          with Some True 1(2) show ?thesis by auto
        next
          case (Inr b)
          with Some obtain t1 p1 where st: "tableItem ts pos table = Some (Inr (t1, p1))"
            by (cases b) auto
          with True 1(2) have rest: "loop ts (skipNewlines ts p1) t1 = Some r" by simp
          from 1(1) [OF rest] tableItem_progress [OF st] skipNewlines_pos [of p1 ts]
          show ?thesis by auto
        qed
      qed
    next
      case False
      with 1(2) show ?thesis by auto
    qed
  qed
  with assms show ?thesis by blast
qed

lemma parseTable_progress:
  assumes "parseTable ts pos = Some (Inr (table', p))"
  shows "pos < p"
  using assms skipNewlines_pos [of "Suc (Suc (Suc pos))" ts]
    skipNewlines_pos [of "Suc (Suc (Suc (Suc (Suc pos))))" ts]
  unfolding parseTable_def
  by (auto split: sum.splits option.splits if_splits
      dest!: bindP_Inr expect_pos parseTableLoop_mono)

lemma parseEnumLoop_mono: "parseEnumLoop ts pos vals = Inr (vals', p) \<Longrightarrow> pos \<le> p"
proof (induction ts pos vals rule: parseEnumLoop.induct)
  case (1 ts pos vals)
  show ?case
  proof (cases "\<not> check ts pos RBRACE \<and> \<not> isAtEnd ts pos")
    case True
    with "1.prems" obtain v p1 where st: "parseEnumValue ts pos = Inr (v, p1)"
      and rest: "parseEnumLoop ts (skipNewlines ts p1) (vals @ [v]) = Inr (vals', p)"
      by (subst (asm) parseEnumLoop.simps) (auto split: sum.splits)
    from "1.IH" [OF True st refl rest] parseEnumValue_progress [OF st] skipNewlines_pos [of p1 ts]
    show ?thesis by simp
  next
    case False
    with "1.prems" show ?thesis by (subst (asm) parseEnumLoop.simps) auto
  qed
qed

lemma parseEnum_progress: "parseEnum ts pos = Inr (e, p) \<Longrightarrow> pos < p"
  unfolding parseEnum_def
  using skipNewlines_pos [of "Suc (Suc (Suc pos))" ts]
  by (auto dest!: bindP_Inr expect_pos parseEnumLoop_mono)

lemma parseRef_progress: "parseRef ts pos = Inr (r, p) \<Longrightarrow> pos < p"
  unfolding parseRef_def parseTableColumn_def parseRelationType_def
  by (auto split: if_splits option.splits dest!: bindP_Inr expect_pos)

lemma parseTableGroupLoop_mono: "parseTableGroupLoop ts pos tables = Inr (tables', p) \<Longrightarrow> pos \<le> p"
proof (induction ts pos tables rule: parseTableGroupLoop.induct)
  case (1 ts pos tables)
  show ?case
  proof (cases "\<not> check ts pos RBRACE \<and> \<not> isAtEnd ts pos")
    case True
    with "1.prems" obtain t p1 where st: "expect ts pos IDENTIFIER = Inr (t, p1)"
      and rest: "parseTableGroupLoop ts (skipNewlines ts p1) (tables @ [tok_value t]) = Inr (tables', p)"
      by (subst (asm) parseTableGroupLoop.simps) (auto split: sum.splits)
    from "1.IH" [OF True st refl rest] expect_pos [OF st] skipNewlines_pos [of p1 ts]
    show ?thesis by simp
  next
    case False
    with "1.prems" show ?thesis by (subst (asm) parseTableGroupLoop.simps) auto
  qed
qed

lemma parseTableGroup_progress: "parseTableGroup ts pos = Inr (g, p) \<Longrightarrow> pos < p"
  unfolding parseTableGroup_def
  using skipNewlines_pos [of "Suc (Suc (Suc pos))" ts]
  by (auto dest!: bindP_Inr expect_pos parseTableGroupLoop_mono)

lemma statement_progress:
  assumes "statement ts pos schema = Some (Inr (schema', p))"
  shows "pos < p"
  using assms
  by (auto simp: statement_def split: if_splits option.splits
      dest!: bindP_Inr parseTable_progress parseEnum_progress parseRef_progress
        parseTableGroup_progress)

subsection \<open>The statements that the loop of \<open>parse\<close> begins\<close>

lemma statement_adds_one:
  assumes "statement ts pos schema = Some (Inr (schema', p))"
  shows "length (ds_tables schema') = length (ds_tables schema) + (if check ts pos TABLE then 1 else 0)
       \<and> length (ds_relations schema') = length (ds_relations schema) + (if check ts pos REF then 1 else 0)"
  using assms
  by (auto simp: statement_def check_def split: if_splits option.splits dest!: bindP_Inr)

lemma statement_keyword:
  assumes "statement ts pos schema = Some (Inr (schema', p))"
  shows "check ts pos TABLE \<or> check ts pos ENUM \<or> check ts pos REF \<or> check ts pos TABLEGROUP"
  using assms by (auto simp: statement_def split: if_splits option.splits)

lemma filter_positions_le:
  assumes "distinct ps" "\<forall>p \<in> set ps. p < length ts"
  shows "length (filter (\<lambda>p. P (ts ! p)) ps) \<le> length (filter P ts)"
proof -
  have "length (filter (\<lambda>p. P (ts ! p)) ps) = card ({p. P (ts ! p)} \<inter> set ps)"
    using assms(1) by (rule distinct_length_filter)
  also have "\<dots> \<le> card {i. i < length ts \<and> P (ts ! i)}"
    using assms(2) by (intro card_mono) auto
  also have "\<dots> = length (filter P ts)" by (simp add: length_filter_conv_card)
  finally show ?thesis .
qed

text \<open>
  A run of the loop that returns a schema begins its statements at strictly increasing
  positions, each at one of the four top-level keywords, and has pushed one table for each
  that stands at \<open>Table\<close> and one relation for each that stands at \<open>Ref\<close>.
\<close>

lemma parseLoop_starts:
  assumes "parseLoop ts pos schema = Some (Inr result)"
  shows "\<exists>ps. statementStartsLoop ts pos schema = Some ps \<and> startsOk ts pos schema result ps"
proof -
  have "\<forall>result. Inr result = r \<longrightarrow>
          (\<exists>ps. statementStartsLoop ts pos schema = Some ps \<and> startsOk ts pos schema result ps)"
    if "parseLoop ts pos schema = Some r" for r
  proof (rule parseLoop.raw_induct
      [where P = "\<lambda>ts pos schema r. \<forall>result. Inr result = r \<longrightarrow>
          (\<exists>ps. statementStartsLoop ts pos schema = Some ps \<and> startsOk ts pos schema result ps)",
       OF _ that], goal_cases)
    case (1 loop ts pos schema r)
    let ?start = "skipNewlines ts pos"
    show ?case
    proof (cases "\<not> isAtEnd ts pos \<and> \<not> isAtEnd ts ?start")
      case False
      with 1(2) have "r = Inr schema" by (auto split: if_splits)
      moreover from False have "statementStartsLoop ts pos schema = Some []"
        by (subst statementStartsLoop.simps) auto
      ultimately show ?thesis by (auto simp: startsOk_def)
    next
      case True
      show ?thesis
      proof (cases "statement ts ?start schema")
        case None
        with True 1(2) show ?thesis by auto
      next
        case (Some a)
        show ?thesis
        proof (cases a)
          case (Inl e)
          with Some True 1(2) show ?thesis by auto
        next
          case (Inr b)
          with Some obtain s1 p1 where st: "statement ts ?start schema = Some (Inr (s1, p1))"
            by (cases b) auto
          with True 1(2) have rest: "loop ts p1 s1 = Some r" by simp
          have lt: "?start < p1" by (rule statement_progress [OF st])
          have ge: "pos \<le> ?start" by (rule skipNewlines_pos)
          from True have len: "?start < length ts" by (simp add: isAtEnd_def)
          have chk: "check ts ?start ty \<longleftrightarrow> tok_type (ts ! ?start) = ty" for ty
            using len by (simp add: check_def parserCurrent_def)
          have one: "length (ds_tables s1)
                = length (ds_tables schema) + (if tok_type (ts ! ?start) = TABLE then 1 else 0)"
            "length (ds_relations s1)
                = length (ds_relations schema) + (if tok_type (ts ! ?start) = REF then 1 else 0)"
            using statement_adds_one [OF st] by (simp_all add: chk)
          have kw: "tok_type (ts ! ?start) \<in> {TABLE, ENUM, REF, TABLEGROUP}"
            using statement_keyword [OF st] by (simp add: chk)
          show ?thesis
          proof (intro allI impI)
            fix result assume res: "Inr result = r"
            from 1(1) [OF rest] res obtain ps where
              ps: "statementStartsLoop ts p1 s1 = Some ps" and ok: "startsOk ts p1 s1 result ps"
              by blast
            from True st ps have "statementStartsLoop ts pos schema = Some (?start # ps)"
              by (subst statementStartsLoop.simps) simp
            moreover from ok one lt ge len kw have "startsOk ts pos schema result (?start # ps)"
              by (auto simp: startsOk_def list_all_iff)
            ultimately show "\<exists>ps. statementStartsLoop ts pos schema = Some ps
                \<and> startsOk ts pos schema result ps" by blast
          qed
        qed
      qed
    qed
  qed
  with assms show ?thesis by blast
qed

lemma parseDSL_starts:
  assumes "parseDSL input = Some (Inr parsed)"
  shows "\<exists>ps. statementStarts input = Some ps \<and> sorted_wrt (<) ps
           \<and> (\<forall>p \<in> set ps. p < length (tokenize input)
                 \<and> tok_type (tokenize input ! p) \<in> {TABLE, ENUM, REF, TABLEGROUP})
           \<and> length (ds_tables parsed)
               = length (filter (\<lambda>p. tok_type (tokenize input ! p) = TABLE) ps)
           \<and> length (ds_relations parsed)
               = length (filter (\<lambda>p. tok_type (tokenize input ! p) = REF) ps)"
proof -
  from assms obtain ps where
    "statementStartsLoop (tokenize input) 0
       \<lparr> ds_name = None, ds_tables = [], ds_relations = [], ds_enums = [], ds_tableGroups = [],
         ds_note = None \<rparr> = Some ps"
    and "startsOk (tokenize input) 0
       \<lparr> ds_name = None, ds_tables = [], ds_relations = [], ds_enums = [], ds_tableGroups = [],
         ds_note = None \<rparr> parsed ps"
    unfolding parseDSL_def parse_def by (blast dest: parseLoop_starts)
  then show ?thesis by (auto simp: statementStarts_def startsOk_def list_all_iff)
qed

lemma parseDSL_counts_le:
  assumes "parseDSL input = Some (Inr parsed)"
  shows "length (ds_tables parsed) \<le> length (filter (\<lambda>t. tok_type t = TABLE) (tokenize input))"
    and "length (ds_relations parsed) \<le> length (filter (\<lambda>t. tok_type t = REF) (tokenize input))"
proof -
  from parseDSL_starts [OF assms] obtain ps where sorted: "sorted_wrt (<) ps"
    and len: "\<forall>p \<in> set ps. p < length (tokenize input)"
    and tables: "length (ds_tables parsed)
               = length (filter (\<lambda>p. tok_type (tokenize input ! p) = TABLE) ps)"
    and rels: "length (ds_relations parsed)
               = length (filter (\<lambda>p. tok_type (tokenize input ! p) = REF) ps)"
    by blast
  from sorted have dist: "distinct ps" by (simp add: strict_sorted_iff)
  show "length (ds_tables parsed) \<le> length (filter (\<lambda>t. tok_type t = TABLE) (tokenize input))"
    unfolding tables by (rule filter_positions_le [OF dist len])
  show "length (ds_relations parsed) \<le> length (filter (\<lambda>t. tok_type t = REF) (tokenize input))"
    unfolding rels by (rule filter_positions_le [OF dist len])
qed

text \<open>
  C2 (amended). \<open>buildGraph(schema)\<close> has one node per entry of \<open>schema.tables\<close>, in order and
  with the table's name as id, and one edge per entry of \<open>schema.relations\<close>. For every text
  that \<open>parseDSL\<close> accepts, the graph built from the parsed schema has one node per statement
  that the loop of \<open>parse\<close> begins at a \<open>Table\<close> keyword and one edge per statement that it
  begins at a \<open>Ref\<close> keyword; the statements begin at strictly increasing positions of the
  token list, each at one of the keywords \<open>Table\<close>, \<open>Enum\<close>, \<open>Ref\<close>, \<open>TableGroup\<close>. So the
  graph has at most as many nodes as the text has \<open>Table\<close> keywords and at most as many edges
  as it has \<open>Ref\<close> keywords: a keyword inside a statement begins none.
\<close>

theorem buildGraph_preserves_counts:
  "length (gr_nodes (buildGraph schema)) = length (ds_tables schema)
   \<and> map n_id (gr_nodes (buildGraph schema)) = map tbl_name (ds_tables schema)
   \<and> length (gr_edges (buildGraph schema)) = length (ds_relations schema)
   \<and> gr_edges (buildGraph schema) = map buildEdge (ds_relations schema)
   \<and> (\<forall>input parsed. parseDSL input = Some (Inr parsed) \<longrightarrow>
         (\<exists>ps. statementStarts input = Some ps \<and> sorted_wrt (<) ps
            \<and> (\<forall>p \<in> set ps. p < length (tokenize input)
                  \<and> tok_type (tokenize input ! p) \<in> {TABLE, ENUM, REF, TABLEGROUP})
            \<and> length (gr_nodes (buildGraph parsed))
                = length (filter (\<lambda>p. tok_type (tokenize input ! p) = TABLE) ps)
            \<and> length (gr_edges (buildGraph parsed))
                = length (filter (\<lambda>p. tok_type (tokenize input ! p) = REF) ps))
         \<and> length (gr_nodes (buildGraph parsed))
             \<le> length (filter (\<lambda>t. tok_type t = TABLE) (tokenize input))
         \<and> length (gr_edges (buildGraph parsed))
             \<le> length (filter (\<lambda>t. tok_type t = REF) (tokenize input)))"
proof (intro conjI allI impI)
  fix input parsed
  assume parsed: "parseDSL input = Some (Inr parsed)"
  from parseDSL_starts [OF parsed]
  show "\<exists>ps. statementStarts input = Some ps \<and> sorted_wrt (<) ps
            \<and> (\<forall>p \<in> set ps. p < length (tokenize input)
                  \<and> tok_type (tokenize input ! p) \<in> {TABLE, ENUM, REF, TABLEGROUP})
            \<and> length (gr_nodes (buildGraph parsed))
                = length (filter (\<lambda>p. tok_type (tokenize input ! p) = TABLE) ps)
            \<and> length (gr_edges (buildGraph parsed))
                = length (filter (\<lambda>p. tok_type (tokenize input ! p) = REF) ps)"
    by (simp add: buildGraph_nodes_length buildGraph_edges)
  from parseDSL_counts_le [OF parsed]
  show "length (gr_nodes (buildGraph parsed))
          \<le> length (filter (\<lambda>t. tok_type t = TABLE) (tokenize input))"
    and "length (gr_edges (buildGraph parsed))
          \<le> length (filter (\<lambda>t. tok_type t = REF) (tokenize input))"
    by (simp_all add: buildGraph_nodes_length buildGraph_edges)
qed (simp_all add: buildGraph_nodes_length buildGraph_node_ids buildGraph_edges)

lemma parseDSL_blogInput: "parseDSL blogInput = Some (Inr blogSchema)"
  by (simp add: tokenize_blogInput parser_eval blogSchema_def postsTable_def usersTable_def
      sampleTable_def sampleColumn_def sampleRelation_def noSettings_def)

lemma statementStarts_blogInput: "statementStarts blogInput = Some [0, 12, 22]"
  by (simp add: statementStarts_def statementStartsLoop.simps tokenize_blogInput parser_eval)

theorem buildGraph_preserves_counts_witness:
  "parseDSL blogInput = Some (Inr blogSchema)
   \<and> statementStarts blogInput = Some [0, 12, 22]
   \<and> map (\<lambda>p. tok_type (tokenize blogInput ! p)) [0, 12, 22] = [TABLE, TABLE, REF]
   \<and> length (gr_nodes (buildGraph blogSchema)) = 2
   \<and> length (gr_edges (buildGraph blogSchema)) = 1
   \<and> map n_id (gr_nodes (buildGraph blogSchema)) = [''posts'', ''users'']
   \<and> length (filter (\<lambda>t. tok_type t = TABLE) (tokenize blogInput)) = 2
   \<and> length (filter (\<lambda>t. tok_type t = REF) (tokenize blogInput)) = 1"
proof -
  have names: "map tbl_name (ds_tables blogSchema) = [''posts'', ''users'']"
    by (simp add: blogSchema_def postsTable_def usersTable_def sampleTable_def)
  have kinds: "map (\<lambda>p. tok_type (tokenize blogInput ! p)) [0, 12, 22] = [TABLE, TABLE, REF]"
    and toks: "length (filter (\<lambda>t. tok_type t = TABLE) (tokenize blogInput)) = 2"
      "length (filter (\<lambda>t. tok_type t = REF) (tokenize blogInput)) = 1"
    by (simp_all add: tokenize_blogInput)
  from buildGraph_preserves_counts [of blogSchema] parseDSL_blogInput
  obtain ps where ps: "statementStarts blogInput = Some ps"
    and nodes: "length (gr_nodes (buildGraph blogSchema))
                = length (filter (\<lambda>p. tok_type (tokenize blogInput ! p) = TABLE) ps)"
    and edges: "length (gr_edges (buildGraph blogSchema))
                = length (filter (\<lambda>p. tok_type (tokenize blogInput ! p) = REF) ps)"
    and ids: "map n_id (gr_nodes (buildGraph blogSchema)) = map tbl_name (ds_tables blogSchema)"
    by blast
  from ps have "ps = [0, 12, 22]" by (simp add: statementStarts_blogInput)
  with nodes edges kinds
  have "length (gr_nodes (buildGraph blogSchema)) = 2"
    and "length (gr_edges (buildGraph blogSchema)) = 1"
    by simp_all
  with parseDSL_blogInput statementStarts_blogInput kinds toks ids names show ?thesis by simp
qed

text \<open>
  The \<open>Table\<close> and \<open>Ref\<close> lines of an accepted text need not all be statements. After
  \<open>[pk\<close> the loop over the settings of the column takes every token up to the next \<open>]\<close>, the
  \<open>Ref\<close> line and the second \<open>Table\<close> line included: the text has two \<open>Table\<close> keywords
  and one \<open>Ref\<close> keyword, each the first token of its line, and the graph has one node and
  no edge.
\<close>

theorem buildGraph_preserves_counts_counterexample:
  "parseDSL swallowInput = Some (Inr swallowSchema)
   \<and> statementStarts swallowInput = Some [0]
   \<and> map (\<lambda>t. (tok_line t, tok_column t)) (filter (\<lambda>t. tok_type t = TABLE) (tokenize swallowInput))
       = [(1, 1), (4, 1)]
   \<and> map (\<lambda>t. (tok_line t, tok_column t)) (filter (\<lambda>t. tok_type t = REF) (tokenize swallowInput))
       = [(3, 1)]
   \<and> length (gr_nodes (buildGraph swallowSchema)) = 1
   \<and> length (gr_edges (buildGraph swallowSchema)) = 0"
proof -
  have "parseDSL swallowInput = Some (Inr swallowSchema)"
    by (simp add: tokenize_swallowInput parser_eval swallowSchema_def sampleTable_def
        sampleColumn_def noSettings_def)
  moreover have "statementStarts swallowInput = Some [0]"
    by (simp add: statementStarts_def statementStartsLoop.simps tokenize_swallowInput parser_eval)
  moreover have "length (gr_nodes (buildGraph swallowSchema)) = 1"
    and "length (gr_edges (buildGraph swallowSchema)) = 0"
    by (simp_all add: buildGraph_nodes_length buildGraph_edges swallowSchema_def)
  ultimately show ?thesis by (simp add: tokenize_swallowInput)
qed

section \<open>What the schema diff tags as modified\<close>

lemma insertionOrder_set: "set (insertionOrder xs) = set xs"
  by (simp add: insertionOrder_def)

lemma insertionOrder_distinct: "distinct (insertionOrder xs)"
  by (simp add: insertionOrder_def)

lemma mapGet_in_keys: "mapGet es k = Some v \<Longrightarrow> k \<in> set (mapKeys es)"
proof -
  assume "mapGet es k = Some v"
  then have "(k, v) \<in> set (rev es)" unfolding mapGet_def by (rule map_of_SomeD)
  then have "k \<in> fst ` set es" by force
  then show ?thesis by (simp add: mapKeys_def insertionOrder_set)
qed

lemma filter_concat_map_key:
  assumes "distinct names" "c \<in> set names" "\<And>m e. e \<in> set (f m) \<Longrightarrow> key e = m"
  shows "filter (\<lambda>e. key e = c) (concat (map f names)) = f c"
  using assms(1,2)
proof (induction names)
  case Nil
  then show ?case by simp
next
  case (Cons a names)
  have other: "filter (\<lambda>e. key e = c) (f m) = []" if "m \<noteq> c" for m
    using assms(3) that by (auto simp: filter_empty_conv)
  have same: "filter (\<lambda>e. key e = c) (f c) = f c"
    using assms(3) by (auto simp: filter_id_conv)
  have none: "filter (\<lambda>e. key e = c) (concat (map f ms)) = []" if "c \<notin> set ms" for ms
    using that assms(3) by (auto simp: filter_empty_conv)
  show ?case
  proof (cases "a = c")
    case True
    with Cons.prems have "c \<notin> set names" by simp
    with True same none show ?thesis by simp
  next
    case False
    with Cons.prems have "c \<in> set names" "distinct names" by auto
    with Cons.IH other [OF False] show ?thesis by simp
  qed
qed

lemma diffColumn_step:
  "diffColumn oc nc name st =
     (fst st @ columnDiffOf oc nc name,
      snd st \<or> (\<exists>e \<in> set (columnDiffOf oc nc name). cd_action e \<noteq> Unchanged))"
  by (cases st)
     (auto simp: diffColumn_def columnDiffOf_def Let_def split: option.splits)

lemma fold_diffColumn:
  "fold (diffColumn oc nc) names st =
     (fst st @ concat (map (columnDiffOf oc nc) names),
      snd st \<or> (\<exists>e \<in> set (concat (map (columnDiffOf oc nc) names)). cd_action e \<noteq> Unchanged))"
proof (induction names arbitrary: st)
  case Nil
  then show ?case by simp
next
  case (Cons n names)
  show ?case
    by (simp add: Cons.IH diffColumn_step [of oc nc n st]) blast
qed

lemma columnDiffOf_name: "e \<in> set (columnDiffOf oc nc m) \<Longrightarrow> cd_name e = m"
  by (auto simp: columnDiffOf_def diffColumn_def Let_def split: option.splits if_splits)

lemma columnDiffOf_action: "e \<in> set (columnDiffOf oc nc m) \<Longrightarrow> cd_action e \<noteq> Unchanged \<longleftrightarrow> cd_action e \<in> {Added, Removed, Modified}"
  by (cases "cd_action e") auto

lemma columnChanges_empty: "columnChanges a b = [] \<longleftrightarrow> \<not> columnDiffers a b"
  by (auto simp: columnChanges_def columnDiffers_def Let_def)

lemma columnDiffOf_both:
  assumes "mapGet oc c = Some a" "mapGet nc c = Some b"
  shows "\<exists>cd. columnDiffOf oc nc c = [cd] \<and> (cd_action cd = Modified \<longleftrightarrow> columnDiffers a b)"
  using assms columnChanges_empty [of a b]
  by (auto simp: columnDiffOf_def diffColumn_def Let_def)

lemma diffTable_step: "diffTable ot nt name ds = ds @ tableDiffOf ot nt name"
  by (auto simp: diffTable_def tableDiffOf_def Let_def split: option.splits prod.splits)

lemma fold_diffTable:
  "fold (diffTable ot nt) names ds = ds @ concat (map (tableDiffOf ot nt) names)"
proof (induction names arbitrary: ds)
  case Nil
  then show ?case by simp
next
  case (Cons n names)
  show ?case by (simp add: Cons.IH diffTable_step [of ot nt n ds])
qed

lemma tableDiffOf_name: "e \<in> set (tableDiffOf ot nt m) \<Longrightarrow> td_name e = m"
  by (auto simp: tableDiffOf_def diffTable_def Let_def split: option.splits prod.splits)

lemma tableDiffOf_both:
  assumes "mapGet ot n = Some a" "mapGet nt n = Some b"
  shows "tableDiffOf ot nt n =
     [\<lparr> td_name = n,
        td_action = (if \<exists>e \<in> set (concat (map (columnDiffOf (columnEntries a) (columnEntries b))
                                  (insertionOrder (mapKeys (columnEntries a) @ mapKeys (columnEntries b))))).
                          cd_action e \<noteq> Unchanged
                     then Modified else Unchanged),
        td_columnDiffs = concat (map (columnDiffOf (columnEntries a) (columnEntries b))
                                  (insertionOrder (mapKeys (columnEntries a) @ mapKeys (columnEntries b)))),
        td_changes = None \<rparr>]"
  using assms
  by (simp add: tableDiffOf_def diffTable_def Let_def fold_diffColumn)

text \<open>
  C8. For a table name present in both schemas, \<open>diffSchemas\<close> gives exactly one table
  entry. It is tagged \<open>modified\<close> iff one of its column entries is tagged \<open>added\<close>,
  \<open>removed\<close> or \<open>modified\<close>. For a column name present in both tables the entry has exactly
  one column entry, tagged \<open>modified\<close> iff the display type (\<open>rawType ?? type\<close>), the
  \<open>primaryKey\<close> field or the \<open>notNull\<close> field of the two columns differ (compared with
  \<open>!==\<close>); no other setting is looked at.
\<close>

theorem diffSchemas_modified:
  assumes "tableNamed oldSchema n = Some oldTable" "tableNamed newSchema n = Some newTable"
  shows "\<exists>td. filter (\<lambda>t. td_name t = n) (sd_tables (diffSchemas oldSchema newSchema)) = [td]
      \<and> (td_action td = Modified
           \<longleftrightarrow> (\<exists>cd \<in> set (td_columnDiffs td). cd_action cd \<in> {Added, Removed, Modified}))
      \<and> (\<forall>c oldCol newCol.
            columnNamed oldTable c = Some oldCol \<and> columnNamed newTable c = Some newCol \<longrightarrow>
            (\<exists>cd. filter (\<lambda>d. cd_name d = c) (td_columnDiffs td) = [cd]
                 \<and> (cd_action cd = Modified \<longleftrightarrow> columnDiffers oldCol newCol)))"
proof -
  let ?ot = "tableEntries oldSchema" and ?nt = "tableEntries newSchema"
  let ?names = "insertionOrder (mapKeys ?ot @ mapKeys ?nt)"
  let ?oc = "columnEntries oldTable" and ?nc = "columnEntries newTable"
  let ?cols = "insertionOrder (mapKeys ?oc @ mapKeys ?nc)"
  let ?cds = "concat (map (columnDiffOf ?oc ?nc) ?cols)"
  let ?td = "\<lparr> td_name = n,
        td_action = (if \<exists>e \<in> set ?cds. cd_action e \<noteq> Unchanged then Modified else Unchanged),
        td_columnDiffs = ?cds, td_changes = None \<rparr>"
  have old: "mapGet ?ot n = Some oldTable" and new: "mapGet ?nt n = Some newTable"
    using assms by (simp_all add: tableNamed_def)
  have tables: "sd_tables (diffSchemas oldSchema newSchema) = concat (map (tableDiffOf ?ot ?nt) ?names)"
    by (simp add: diffSchemas_def Let_def fold_diffTable)
  have "n \<in> set ?names"
    using mapGet_in_keys [OF old] by (simp add: insertionOrder_set)
  then have "filter (\<lambda>t. td_name t = n) (concat (map (tableDiffOf ?ot ?nt) ?names)) = tableDiffOf ?ot ?nt n"
    by (intro filter_concat_map_key insertionOrder_distinct) (auto dest: tableDiffOf_name)
  then have one: "filter (\<lambda>t. td_name t = n) (sd_tables (diffSchemas oldSchema newSchema)) = [?td]"
    by (simp add: tables tableDiffOf_both [OF old new])
  have action: "td_action ?td = Modified
      \<longleftrightarrow> (\<exists>cd \<in> set (td_columnDiffs ?td). cd_action cd \<in> {Added, Removed, Modified})"
  proof -
    have "cd_action e \<noteq> Unchanged \<longleftrightarrow> cd_action e \<in> {Added, Removed, Modified}" for e :: ColumnDiff
      by (cases "cd_action e") auto
    then show ?thesis by simp
  qed
  have cols: "\<exists>cd. filter (\<lambda>d. cd_name d = c) (td_columnDiffs ?td) = [cd]
                 \<and> (cd_action cd = Modified \<longleftrightarrow> columnDiffers oldCol newCol)"
    if "columnNamed oldTable c = Some oldCol \<and> columnNamed newTable c = Some newCol"
    for c oldCol newCol
  proof -
    from that have oc: "mapGet ?oc c = Some oldCol" and nc: "mapGet ?nc c = Some newCol"
      by (simp_all add: columnNamed_def)
    have "c \<in> set ?cols" using mapGet_in_keys [OF oc] by (simp add: insertionOrder_set)
    then have "filter (\<lambda>d. cd_name d = c) ?cds = columnDiffOf ?oc ?nc c"
      by (intro filter_concat_map_key insertionOrder_distinct) (auto dest: columnDiffOf_name)
    with columnDiffOf_both [OF oc nc] show ?thesis by simp
  qed
  from one action cols show ?thesis by blast
qed
lemma usersOld_columns:
  "columnNamed usersOld ''id''
     = Some (sampleColumn ''id'' CT_int ''int'' (noSettings\<lparr>cs_primaryKey := Some True\<rparr>))"
  "columnNamed usersOld ''email'' = Some (sampleColumn ''email'' CT_varchar ''varchar'' noSettings)"
  by (simp_all add: columnNamed_def mapGet_def columnEntries_def usersOld_def sampleTable_def
      sampleColumn_def)

lemma usersNew_columns:
  "columnNamed usersNew ''id''
     = Some (sampleColumn ''id'' CT_int ''int''
               (noSettings\<lparr>cs_primaryKey := Some True, cs_unique := Some True,
                            cs_default := Some (DefNumber (Num 1)), cs_length := Some (Num 8)\<rparr>))"
  "columnNamed usersNew ''email'' = Some (sampleColumn ''email'' CT_text ''text'' noSettings)"
  by (simp_all add: columnNamed_def mapGet_def columnEntries_def usersNew_def sampleTable_def
      sampleColumn_def)

theorem diffSchemas_modified_witness:
  "tableNamed (schemaOf [usersOld]) ''users'' = Some usersOld
   \<and> tableNamed (schemaOf [usersNew]) ''users'' = Some usersNew
   \<and> (\<exists>td idDiff emailDiff.
         filter (\<lambda>t. td_name t = ''users'')
           (sd_tables (diffSchemas (schemaOf [usersOld]) (schemaOf [usersNew]))) = [td]
         \<and> filter (\<lambda>d. cd_name d = ''id'') (td_columnDiffs td) = [idDiff]
         \<and> cd_action idDiff \<noteq> Modified
         \<and> filter (\<lambda>d. cd_name d = ''email'') (td_columnDiffs td) = [emailDiff]
         \<and> cd_action emailDiff = Modified
         \<and> td_action td = Modified)"
proof -
  let ?idOld = "sampleColumn ''id'' CT_int ''int'' (noSettings\<lparr>cs_primaryKey := Some True\<rparr>)"
  let ?idNew = "sampleColumn ''id'' CT_int ''int''
               (noSettings\<lparr>cs_primaryKey := Some True, cs_unique := Some True,
                            cs_default := Some (DefNumber (Num 1)), cs_length := Some (Num 8)\<rparr>)"
  let ?emailOld = "sampleColumn ''email'' CT_varchar ''varchar'' noSettings"
  let ?emailNew = "sampleColumn ''email'' CT_text ''text'' noSettings"
  have old: "tableNamed (schemaOf [usersOld]) ''users'' = Some usersOld"
    by (simp add: tableNamed_def mapGet_def tableEntries_def schemaOf_def usersOld_def
        sampleTable_def)
  have new: "tableNamed (schemaOf [usersNew]) ''users'' = Some usersNew"
    by (simp add: tableNamed_def mapGet_def tableEntries_def schemaOf_def usersNew_def
        sampleTable_def)
  have same: "\<not> columnDiffers ?idOld ?idNew"
    by (simp add: columnDiffers_def displayType_def sampleColumn_def noSettings_def)
  have differs: "columnDiffers ?emailOld ?emailNew"
    by (simp add: columnDiffers_def displayType_def sampleColumn_def)
  from diffSchemas_modified [OF old new] obtain td
    where one: "filter (\<lambda>t. td_name t = ''users'')
                  (sd_tables (diffSchemas (schemaOf [usersOld]) (schemaOf [usersNew]))) = [td]"
      and action: "td_action td = Modified
           \<longleftrightarrow> (\<exists>cd \<in> set (td_columnDiffs td). cd_action cd \<in> {Added, Removed, Modified})"
      and cols: "\<And>c oldCol newCol.
            columnNamed usersOld c = Some oldCol \<and> columnNamed usersNew c = Some newCol \<Longrightarrow>
            (\<exists>cd. filter (\<lambda>d. cd_name d = c) (td_columnDiffs td) = [cd]
                 \<and> (cd_action cd = Modified \<longleftrightarrow> columnDiffers oldCol newCol))"
    by blast
  from cols [of "''id''" ?idOld ?idNew] usersOld_columns(1) usersNew_columns(1) same
  obtain idDiff where idDiff: "filter (\<lambda>d. cd_name d = ''id'') (td_columnDiffs td) = [idDiff]"
    "cd_action idDiff \<noteq> Modified" by blast
  from cols [of "''email''" ?emailOld ?emailNew] usersOld_columns(2) usersNew_columns(2) differs
  obtain emailDiff
    where emailDiff: "filter (\<lambda>d. cd_name d = ''email'') (td_columnDiffs td) = [emailDiff]"
      "cd_action emailDiff = Modified" by blast
  have "emailDiff \<in> set (filter (\<lambda>d. cd_name d = ''email'') (td_columnDiffs td))"
    by (simp add: emailDiff(1))
  then have "emailDiff \<in> set (td_columnDiffs td)" by simp
  with emailDiff(2) action have "td_action td = Modified" by auto
  with old new one idDiff emailDiff show ?thesis by blast
qed

end
